theory Spec2Isabelle
  imports Complex_Main
begin

section \<open>Polynomials in the axial coordinate\<close>

text \<open>
  The notebook hands every geometric question to the CadQuery kernel: it builds
  spheres and cylinders on the z axis, unites them, cuts them with a drill placed
  above the liquid level, and asks the kernel for volume, centre of mass and matrix
  of inertia of what is left.  All these bodies are bodies of revolution about the
  z axis, and the squared radius of their circular cross-section is a polynomial
  in z on each stretch of the axis.  Mass properties are then integrals of
  polynomials, computed exactly here from coefficient lists (lowest degree first).
  Python floats are read as real numbers.
\<close>

fun peval :: "real list \<Rightarrow> real \<Rightarrow> real" where
  "peval [] z = 0"
| "peval (c # cs) z = c + z * peval cs z"

fun padd :: "real list \<Rightarrow> real list \<Rightarrow> real list" where
  "padd [] q = q"
| "padd p [] = p"
| "padd (a # p) (b # q) = (a + b) # padd p q"

definition pscale :: "real \<Rightarrow> real list \<Rightarrow> real list" where
  "pscale k p = map (\<lambda>c. k * c) p"

fun pmul :: "real list \<Rightarrow> real list \<Rightarrow> real list" where
  "pmul [] q = []"
| "pmul (a # p) q = padd (pscale a q) (0 # pmul p q)"

text \<open>\<open>pshift d p\<close> is the polynomial \<open>z \<mapsto> p (z - d)\<close>.\<close>

fun pshift :: "real \<Rightarrow> real list \<Rightarrow> real list" where
  "pshift d [] = []"
| "pshift d (c # cs) = padd [c] (pmul [- d, 1] (pshift d cs))"

text \<open>The antiderivative that vanishes at 0: the coefficient of \<open>z^k\<close> moves to
  \<open>z^(k+1)\<close> and is divided by \<open>k + 1\<close>.\<close>

fun pint_from :: "nat \<Rightarrow> real list \<Rightarrow> real list" where
  "pint_from k [] = []"
| "pint_from k (c # cs) = c / (real k + 1) # pint_from (Suc k) cs"

definition pint :: "real list \<Rightarrow> real list" where
  "pint p = 0 # pint_from 0 p"

definition integral :: "real list \<Rightarrow> real \<Rightarrow> real \<Rightarrow> real" where
  "integral p a b = peval (pint p) b - peval (pint p) a"

section \<open>The solid-modelling kernel\<close>

text \<open>
  A slab is the part of a body of revolution between two heights: the points
  \<open>(x, y, z)\<close> with \<open>lo \<le> z \<le> hi\<close> and \<open>x\<^sup>2 + y\<^sup>2 \<le> prof(z)\<close>.
  A solid is a list of slabs that meet at most in their end planes; the empty list is
  the empty shape.
\<close>

record slab =
  lo :: real
  hi :: real
  prof :: "real list"

type_synonym solid = "slab list"

text \<open>Exceptions are values.  \<open>KernelError\<close> stands for the exception that leaves the
  CadQuery kernel when it is asked for a primitive it cannot build;
  \<open>ConfigurationError\<close> is the rejection of a tank by its constructor (see the section
  on the tank constructors).\<close>

datatype error = KernelError | ConfigurationError

text \<open>\<^verbatim>\<open>cq.Workplane("XY").sphere(radius)\<close>: the ball about the origin.  Both evaluators
  build, next to every sphere, a cylinder of the same radius, and the kernel refuses
  that cylinder when the radius is not positive; so no result of an evaluator rests on
  a sphere whose radius is not positive.\<close>

definition sphere :: "real \<Rightarrow> solid" where
  "sphere radius = [\<lparr>lo = - radius, hi = radius, prof = [radius\<^sup>2, 0, - 1]\<rparr>]"

text \<open>\<^verbatim>\<open>cq.Workplane("XY").cylinder(height, radius)\<close>: the kernel raises when the height
  or the radius is not positive (a cylinder without height is no solid).  Otherwise
  CadQuery centres the cylinder on the origin, so it reaches from \<open>- height / 2\<close> to
  \<open>height / 2\<close>.\<close>

definition cylinder :: "real \<Rightarrow> real \<Rightarrow> error + solid" where
  "cylinder height radius =
     (if height \<le> 0 \<or> radius \<le> 0 then Inl KernelError
      else Inr [\<lparr>lo = - height / 2, hi = height / 2, prof = [radius\<^sup>2]\<rparr>])"

text \<open>\<^verbatim>\<open>.translate((0, 0, dz))\<close>: every translation in the notebook is along the axis.\<close>

definition translate :: "real \<Rightarrow> solid \<Rightarrow> solid" where
  "translate dz s = map (\<lambda>p. \<lparr>lo = lo p + dz, hi = hi p + dz, prof = pshift dz (prof p)\<rparr>) s"

text \<open>
  Boolean operations.  \<open>uncover_slab strict t s\<close> is what is left of the slab \<open>s\<close>
  once the part that the slab \<open>t\<close> covers is taken away: outside the heights of
  \<open>t\<close> the slab \<open>s\<close> stays, and on the common stretch it stays unless the
  cross-section of \<open>t\<close> contains that of \<open>s\<close> (properly, when \<open>strict\<close>).  The
  cross-sections are compared in the middle of the common stretch; this is exact
  when one of the two profiles lies inside the other along the whole stretch, as it
  does for the coaxial primitives of one common radius that the notebook combines
  (\<open>capsule_integ\<close> below finds the capped cylinder to be the straight part with
  half a ball at each end, whatever its proportions).  A tool narrower than the body
  would leave a ring, which a slab cannot express; the drill of the notebook has the
  radius of the body it cuts, so this never arises.
\<close>

definition covers :: "bool \<Rightarrow> slab \<Rightarrow> slab \<Rightarrow> real \<Rightarrow> bool" where
  "covers strict t s z =
     (if strict then peval (prof s) z < peval (prof t) z
      else peval (prof s) z \<le> peval (prof t) z)"

definition uncover_slab :: "bool \<Rightarrow> slab \<Rightarrow> slab \<Rightarrow> slab list" where
  "uncover_slab strict t s =
     (let u = max (lo s) (lo t); v = min (hi s) (hi t) in
      if v \<le> u then [s]
      else (if lo s < u then [s\<lparr>hi := u\<rparr>] else []) @
           (if covers strict t s ((u + v) / 2) then [] else [s\<lparr>lo := u, hi := v\<rparr>]) @
           (if v < hi s then [s\<lparr>lo := v\<rparr>] else []))"

definition uncover :: "bool \<Rightarrow> solid \<Rightarrow> solid \<Rightarrow> solid" where
  "uncover strict a b = fold (\<lambda>t acc. concat (map (uncover_slab strict t) acc)) b a"

text \<open>\<^verbatim>\<open>a.cut(tool)\<close>: the body without the tool.\<close>

definition cut_solid :: "solid \<Rightarrow> solid \<Rightarrow> solid" where
  "cut_solid a tool = uncover False a tool"

text \<open>\<^verbatim>\<open>a.union(b)\<close>: of \<open>a\<close> what \<open>b\<close> does not properly cover, and of \<open>b\<close> what
  \<open>a\<close> does not cover.\<close>

definition union_solid :: "solid \<Rightarrow> solid \<Rightarrow> solid" where
  "union_solid a b = uncover True a b @ uncover False b a"

text \<open>
  Mass properties (unit density).  A cross-section at height \<open>z\<close> is a disc of squared
  radius \<open>q = prof(z)\<close>: its area is \<open>\<pi> q\<close>, and its second moment about a diameter
  is \<open>\<pi> q\<^sup>2 / 4\<close>.  \<open>integrate f s\<close> integrates the polynomial \<open>f (prof)\<close> along the
  axis, slab by slab.
\<close>

definition integrate :: "(real list \<Rightarrow> real list) \<Rightarrow> solid \<Rightarrow> real" where
  "integrate f s = (\<Sum>p\<leftarrow>s. integral (f (prof p)) (lo p) (hi p))"

text \<open>\<^verbatim>\<open>Shape.Volume()\<close>.\<close>

definition Volume :: "solid \<Rightarrow> real" where
  "Volume s = pi * integrate (\<lambda>q. q) s"

definition first_moment :: "solid \<Rightarrow> real" where
  "first_moment s = pi * integrate (\<lambda>q. pmul [0, 1] q) s"

datatype vector = Vector (vx: real) (vy: real) (vz: real)

text \<open>\<^verbatim>\<open>Shape.centerOfMass(obj)\<close>: on the axis, by symmetry; the kernel reports the
  origin for a shape without volume.\<close>

definition centerOfMass :: "solid \<Rightarrow> vector" where
  "centerOfMass s =
     (if Volume s = 0 then Vector 0 0 0 else Vector 0 0 (first_moment s / Volume s))"

text \<open>The second moment about the horizontal axis that meets the z axis at height
  \<open>a\<close>: a disc of squared radius \<open>q\<close> at height \<open>z\<close> adds \<open>\<pi> q\<^sup>2 / 4\<close> about its own
  diameter and \<open>\<pi> q (z - a)\<^sup>2\<close> for its distance from that axis.\<close>

definition second_moment :: "real \<Rightarrow> solid \<Rightarrow> real" where
  "second_moment a s =
     pi * integrate (\<lambda>q. padd (pscale (1 / 4) (pmul q q)) (pmul (pmul [- a, 1] [- a, 1]) q)) s"

text \<open>\<^verbatim>\<open>Shape.matrixOfInertia(obj)\<close>: the kernel returns the matrix of inertia in the
  central coordinate system, whose origin is the centre of mass and whose axes are
  parallel to the absolute ones.  For a body of revolution about z it is diagonal.\<close>

definition matrixOfInertia :: "solid \<Rightarrow> real list list" where
  "matrixOfInertia s =
     (let g = vz (centerOfMass s);
          across = second_moment g s;
          along = pi * integrate (\<lambda>q. pscale (1 / 2) (pmul q q)) s
      in [[across, 0, 0], [0, across, 0], [0, 0, along]])"

section \<open>The evaluators of the notebook\<close>

text \<open>Each evaluator returns the triple (volume, centre of mass along z, inertia about
  the origin), or the exception that a call to the kernel raised on the way.  The
  chain \<^verbatim>\<open>cq.Workplane("XY").cylinder(\<dots>).translate(\<dots>)\<close> that makes the drill is
  evaluated as an argument of \<^verbatim>\<open>cut\<close>, after the solid it is to cut was built.\<close>

definition evaluate_sphere_parameters :: "real \<Rightarrow> real \<Rightarrow> error + real \<times> real \<times> real" where
  "evaluate_sphere_parameters radius level_height =
     (let sphere0 = sphere radius;
          drill_height = 10 * radius
      in case cylinder drill_height radius of
           Inl e \<Rightarrow> Inl e
         | Inr drill \<Rightarrow>
             (let sphere1 = cut_solid sphere0
                              (translate (drill_height / 2 + level_height) drill);
                  primitive = sphere1;
                  volume = Volume primitive;
                  center_of_mass = centerOfMass primitive;
                  inertia_tensor = matrixOfInertia primitive
              in Inr (volume, vz center_of_mass,
                      inertia_tensor ! 0 ! 0 + volume * (vz center_of_mass)\<^sup>2)))"

definition evaluate_cylinder_with_caps ::
  "real \<Rightarrow> real \<Rightarrow> real \<Rightarrow> error + real \<times> real \<times> real" where
  "evaluate_cylinder_with_caps total_length radius level_height =
     (let cylinder_height = total_length - 2 * radius
      in case cylinder cylinder_height radius of
           Inl e \<Rightarrow> Inl e
         | Inr cylinder0 \<Rightarrow>
             (let top_cap = translate (total_length / 2 - radius) (sphere radius);
                  bottom_cap = translate (- total_length / 2 + radius) (sphere radius);
                  solid0 = union_solid (union_solid cylinder0 top_cap) bottom_cap;
                  drill_height = 10 * total_length
              in case cylinder drill_height radius of
                   Inl e \<Rightarrow> Inl e
                 | Inr drill \<Rightarrow>
                     (let solid1 = cut_solid solid0
                                     (translate (drill_height / 2 + level_height) drill);
                          primitive = solid1;
                          volume = Volume primitive;
                          center_of_mass = centerOfMass primitive;
                          inertia_tensor = matrixOfInertia primitive
                      in Inr (volume, vz center_of_mass,
                              inertia_tensor ! 0 ! 0 + volume * (vz center_of_mass)\<^sup>2))))"

section \<open>The tabulation harness\<close>

text \<open>\<^verbatim>\<open>numpy.linspace(start, stop, num)\<close> with its default \<^verbatim>\<open>endpoint=True\<close>: the
  indices \<open>0, \<dots>, num - 1\<close> are scaled by the step \<open>delta / div\<close> with \<open>div = num - 1\<close>
  (by \<open>delta\<close> itself when \<open>div\<close> is not positive), moved by \<open>start\<close>, and the last
  sample is overwritten with \<open>stop\<close> when there is more than one.  For \<open>num = 0\<close>
  the natural number \<open>num - 1\<close> is 0 where Python has \<open>- 1\<close>; both take the branch
  for a \<open>div\<close> that is not positive, on an empty list of indices.\<close>

definition linspace :: "real \<Rightarrow> real \<Rightarrow> nat \<Rightarrow> real list" where
  "linspace start stop num =
     (let n_div = num - 1;
          delta = stop - start;
          y = map real [0..<num];
          y = (if 0 < n_div then map (\<lambda>v. v * (delta / real n_div)) y
               else map (\<lambda>v. v * delta) y);
          y = map (\<lambda>v. v + start) y
      in if 1 < num then butlast y @ [stop] else y)"

text \<open>A CSV file as the rows handed to \<^verbatim>\<open>csv.writer.writerow\<close>, before they are rendered
  as text: the header row holds strings, the data rows numbers.\<close>

datatype cell = Text string | Number real

record csv_file =
  file_name :: string
  rows :: "cell list list"

definition export_expected_parameters :: "string \<Rightarrow> real list list \<Rightarrow> csv_file" where
  "export_expected_parameters name datapoints =
     \<lparr>file_name = name @ ''_expected.csv'',
      rows = map Text [''level_height'', ''volume'', ''center_of_mass'', ''inertia'']
             # map (\<lambda>data_row. map Number data_row) datapoints\<rparr>"

text \<open>What the sampling loops read from a tank geometry of \<^verbatim>\<open>geometry_map\<close>: the
  attribute \<^verbatim>\<open>total_height\<close> and the method \<^verbatim>\<open>radius(position)\<close>.\<close>

record tank_geometry =
  total_height :: real
  radius_fn :: "real \<Rightarrow> real"

text \<open>The inner loop for one sphere, \<^verbatim>\<open>for h in np.linspace(\<dots>)\<close>: every pass
  appends one row to \<^verbatim>\<open>datapoints\<close>; an exception of the evaluator ends the loop, and
  with it the cell of the notebook.\<close>

fun sphere_rows :: "real \<Rightarrow> real list \<Rightarrow> real list list \<Rightarrow> error + real list list" where
  "sphere_rows radius [] datapoints = Inr datapoints"
| "sphere_rows radius (h # hs) datapoints =
     (case evaluate_sphere_parameters radius h of
        Inl e \<Rightarrow> Inl e
      | Inr (volume, center_of_mass, inertia) \<Rightarrow>
          sphere_rows radius hs (datapoints @ [[h, volume, center_of_mass, inertia]]))"

definition sphere_datapoints :: "tank_geometry \<Rightarrow> error + real list list" where
  "sphere_datapoints sphere_geometry =
     (let radius = total_height sphere_geometry / 2
      in sphere_rows radius (linspace (- radius) radius 25) [])"

text \<open>The outer loop over \<^verbatim>\<open>geometry_map["sphere"].items()\<close>, threading the list of
  the files written so far.  It returns that list and the exception that ended the
  loop, if one did: the files of the entries before it stay written.\<close>

fun export_spheres ::
  "(string \<times> tank_geometry) list \<Rightarrow> csv_file list \<Rightarrow> csv_file list \<times> error option" where
  "export_spheres [] files = (files, None)"
| "export_spheres ((name, sphere_geometry) # items) files =
     (case sphere_datapoints sphere_geometry of
        Inl e \<Rightarrow> (files, Some e)
      | Inr datapoints \<Rightarrow>
          export_spheres items (files @ [export_expected_parameters name datapoints]))"

text \<open>The same for the loops over \<^verbatim>\<open>geometry_map["cylinder"].items()\<close>.\<close>

fun cylinder_rows ::
  "real \<Rightarrow> real \<Rightarrow> real list \<Rightarrow> real list list \<Rightarrow> error + real list list" where
  "cylinder_rows len radius [] datapoints = Inr datapoints"
| "cylinder_rows len radius (h # hs) datapoints =
     (case evaluate_cylinder_with_caps len radius h of
        Inl e \<Rightarrow> Inl e
      | Inr (volume, center_of_mass, inertia) \<Rightarrow>
          cylinder_rows len radius hs (datapoints @ [[h, volume, center_of_mass, inertia]]))"

definition cylinder_datapoints :: "tank_geometry \<Rightarrow> error + real list list" where
  "cylinder_datapoints cylinder_geometry =
     (let radius = radius_fn cylinder_geometry 0;
          len = total_height cylinder_geometry
      in cylinder_rows len radius (linspace (- len / 2) (len / 2) 25) [])"

fun export_cylinders ::
  "(string \<times> tank_geometry) list \<Rightarrow> csv_file list \<Rightarrow> csv_file list \<times> error option" where
  "export_cylinders [] files = (files, None)"
| "export_cylinders ((name, cylinder_geometry) # items) files =
     (case cylinder_datapoints cylinder_geometry of
        Inl e \<Rightarrow> (files, Some e)
      | Inr datapoints \<Rightarrow>
          export_cylinders items (files @ [export_expected_parameters name datapoints]))"

section \<open>The tank constructors\<close>

text \<open>Modelled from the spec: the constructor \<^verbatim>\<open>SphericalTank(radius)\<close> of the rocketpy
  package, which the notebook imports and calls to fill \<^verbatim>\<open>geometry_map\<close>; its code is
  not among the sources.  The spec has a shape with a radius that is not positive
  rejected by a ConfigurationError at construction; otherwise the tank has the
  dimensions it was given, a total height of twice the radius.\<close>

definition SphericalTank :: "real \<Rightarrow> error + tank_geometry" where
  "SphericalTank radius =
     (if radius \<le> 0 then Inl ConfigurationError
      else Inr \<lparr>total_height = 2 * radius, radius_fn = (\<lambda>position. radius)\<rparr>)"

text \<open>Modelled from the spec: the constructor
  \<^verbatim>\<open>CylindricalTank(radius, height, spherical_caps)\<close> of the rocketpy package, likewise
  absent from the sources.  The spec has it rejected by a ConfigurationError when the
  radius or the length is not positive, or when the two caps together are longer than
  the whole tank; otherwise the tank keeps the radius and the total height it was
  given.\<close>

definition CylindricalTank :: "real \<Rightarrow> real \<Rightarrow> bool \<Rightarrow> error + tank_geometry" where
  "CylindricalTank radius height spherical_caps =
     (if radius \<le> 0 \<or> height \<le> 0 \<or> (spherical_caps \<and> height < 2 * radius)
      then Inl ConfigurationError
      else Inr \<lparr>total_height = height, radius_fn = (\<lambda>position. radius)\<rparr>)"

text \<open>One entry of \<^verbatim>\<open>geometry_map\<close> followed through the notebook: the tank is
  constructed first, and the sampling loop runs on the constructed geometry only; an
  exception raised by the constructor ends the run.\<close>

definition run_sphere_entry :: "string \<Rightarrow> real \<Rightarrow> error + csv_file" where
  "run_sphere_entry name radius =
     (case SphericalTank radius of
        Inl e \<Rightarrow> Inl e
      | Inr sphere_geometry \<Rightarrow>
          (case sphere_datapoints sphere_geometry of
             Inl e \<Rightarrow> Inl e
           | Inr datapoints \<Rightarrow> Inr (export_expected_parameters name datapoints)))"

definition run_cylinder_entry :: "string \<Rightarrow> real \<Rightarrow> real \<Rightarrow> error + csv_file" where
  "run_cylinder_entry name radius height =
     (case CylindricalTank radius height True of
        Inl e \<Rightarrow> Inl e
      | Inr cylinder_geometry \<Rightarrow>
          (case cylinder_datapoints cylinder_geometry of
             Inl e \<Rightarrow> Inl e
           | Inr datapoints \<Rightarrow> Inr (export_expected_parameters name datapoints)))"

section \<open>The filled region in the words of the spec\<close>

text \<open>
  The spec describes what the evaluators are to measure without the kernel: the tank
  is a sphere of radius \<open>R\<close> about the origin, or a straight section of length
  \<open>L - 2 r\<close> about the origin with a half ball of the same radius \<open>r\<close> at each end,
  joined at \<open>z = \<plusminus>(L/2 - r)\<close> without overlap; the filled region is the part of the
  tank at or below the plane \<open>z = level_height\<close>; its centroid is its first moment
  divided by its volume, and its central moment of inertia is the second moment about
  the horizontal axis through the centroid.  These definitions follow that
  description; the theorems compare them with what the evaluators compute.
\<close>

definition sphere_shape :: "real \<Rightarrow> solid" where
  "sphere_shape R = [\<lparr>lo = - R, hi = R, prof = [R\<^sup>2, 0, - 1]\<rparr>]"

definition capped_cylinder_shape :: "real \<Rightarrow> real \<Rightarrow> solid" where
  "capped_cylinder_shape L r =
     (let c = L / 2 - r in
      [\<lparr>lo = - L / 2, hi = - c, prof = pshift (- c) [r\<^sup>2, 0, - 1]\<rparr>,
       \<lparr>lo = - c, hi = c, prof = [r\<^sup>2]\<rparr>,
       \<lparr>lo = c, hi = L / 2, prof = pshift c [r\<^sup>2, 0, - 1]\<rparr>])"

definition filled_region :: "solid \<Rightarrow> real \<Rightarrow> solid" where
  "filled_region s level_height =
     concat (map (\<lambda>p. if lo p < level_height then [p\<lparr>hi := min (hi p) level_height\<rparr>] else []) s)"

text \<open>A region without volume has no centroid; none of its moments depends on the
  axis then, and the axis is put through the origin.\<close>

definition centroid :: "solid \<Rightarrow> real" where
  "centroid s = (if Volume s = 0 then 0 else first_moment s / Volume s)"

definition central_moment :: "solid \<Rightarrow> real" where
  "central_moment s = second_moment (centroid s) s"

text \<open>The three mass properties of a region: its volume, its centroid, and its second
  moment about the fixed horizontal axis through the origin.\<close>

definition region_properties :: "solid \<Rightarrow> real \<times> real \<times> real" where
  "region_properties s = (Volume s, centroid s, second_moment 0 s)"

text \<open>What the drill of the evaluators cannot reach: it starts at the level and is
  \<open>drill_height\<close> long, so the part of a solid above \<open>level_height + drill_height\<close>
  is not taken away by the cut.\<close>

definition beyond_drill :: "solid \<Rightarrow> real \<Rightarrow> solid" where
  "beyond_drill s drill_top =
     concat (map (\<lambda>p. if drill_top < hi p then [p\<lparr>lo := max (lo p) drill_top\<rparr>] else []) s)"

section \<open>Notions used in the proofs\<close>

text \<open>\<open>integ F s\<close> adds up, over the slabs of \<open>s\<close>, the increase of \<open>F (prof)\<close> from
  the lower to the upper end; with \<open>F\<close> an antiderivative this is an integral along the
  axis.  \<open>clip a b F\<close> is \<open>F\<close> for a body from which the heights between \<open>a\<close> and
  \<open>b\<close> were taken away.  \<open>mass_properties\<close> is the triple both evaluators return for
  the solid they have built.  A slab is well formed when its ends are in order and its
  squared radius is not negative between them.\<close>

definition integ :: "(real list \<Rightarrow> real \<Rightarrow> real) \<Rightarrow> solid \<Rightarrow> real" where
  "integ F s = (\<Sum>p\<leftarrow>s. F (prof p) (hi p) - F (prof p) (lo p))"

definition clip :: "real \<Rightarrow> real \<Rightarrow> (real list \<Rightarrow> real \<Rightarrow> real) \<Rightarrow> real list \<Rightarrow> real \<Rightarrow> real" where
  "clip a b F q x = F q (min x a) + F q (max x b)"

definition mass_properties :: "solid \<Rightarrow> real \<times> real \<times> real" where
  "mass_properties s =
     (Volume s, vz (centerOfMass s),
      matrixOfInertia s ! 0 ! 0 + Volume s * (vz (centerOfMass s))\<^sup>2)"

definition wf_slab :: "slab \<Rightarrow> bool" where
  "wf_slab p = (lo p \<le> hi p \<and> (\<forall>z. lo p \<le> z \<and> z \<le> hi p \<longrightarrow> 0 \<le> peval (prof p) z))"

text \<open>The cylinder the kernel builds when it does not refuse; the three primitives of
  the capped cylinder as slabs: the straight part between \<open>- c\<close> and \<open>c\<close>, a ball of
  radius \<open>r\<close> about the height \<open>d\<close>; the solid
  \<^verbatim>\<open>cylinder.union(top_cap).union(bottom_cap)\<close> that \<open>evaluate_cylinder_with_caps\<close>
  builds before it cuts; and the triples the two evaluators return when no call to
  the kernel raises.\<close>

definition rod :: "real \<Rightarrow> real \<Rightarrow> solid" where
  "rod height radius = [\<lparr>lo = - height / 2, hi = height / 2, prof = [radius\<^sup>2]\<rparr>]"

definition cyl_slab :: "real \<Rightarrow> real \<Rightarrow> slab" where
  "cyl_slab c r = \<lparr>lo = - c, hi = c, prof = [r\<^sup>2]\<rparr>"

definition ball_slab :: "real \<Rightarrow> real \<Rightarrow> slab" where
  "ball_slab d r = \<lparr>lo = d - r, hi = d + r, prof = pshift d [r\<^sup>2, 0, - 1]\<rparr>"

definition capsule :: "real \<Rightarrow> real \<Rightarrow> solid" where
  "capsule L r =
     union_solid (union_solid (rod (L - 2 * r) r) (translate (L / 2 - r) (sphere r)))
       (translate (- L / 2 + r) (sphere r))"

definition sphere_values :: "real \<Rightarrow> real \<Rightarrow> real \<times> real \<times> real" where
  "sphere_values R h =
     mass_properties (cut_solid (sphere R) (translate (10 * R / 2 + h) (rod (10 * R) R)))"

definition capsule_values :: "real \<Rightarrow> real \<Rightarrow> real \<Rightarrow> real \<times> real \<times> real" where
  "capsule_values L r h =
     mass_properties (cut_solid (capsule L r) (translate (10 * L / 2 + h) (rod (10 * L) r)))"

section \<open>Polynomial arithmetic and integration\<close>

lemma peval_padd [simp]: "peval (padd p q) z = peval p z + peval q z"
  by (induction p q rule: padd.induct) (simp_all add: algebra_simps)

lemma peval_pscale [simp]: "peval (pscale k p) z = k * peval p z"
  by (induction p) (simp_all add: pscale_def algebra_simps)

lemma peval_pmul [simp]: "peval (pmul p q) z = peval p z * peval q z"
  by (induction p) (simp_all add: algebra_simps)

lemma peval_pshift [simp]: "peval (pshift d p) z = peval p (z - d)"
  by (induction p) (simp_all add: algebra_simps)

lemma pint_from_deriv:
  "((\<lambda>z. z ^ Suc k * peval (pint_from k p) z) has_real_derivative z ^ k * peval p z) (at z)"
proof (induction p arbitrary: k)
  case Nil
  show ?case by simp
next
  case (Cons c cs)
  have eq: "(\<lambda>z. z ^ Suc k * peval (pint_from k (c # cs)) z)
          = (\<lambda>z. c / (real k + 1) * z ^ Suc k + z ^ Suc (Suc k) * peval (pint_from (Suc k) cs) z)"
    by (rule ext) (simp add: algebra_simps)
  have d1: "((\<lambda>z. c / (real k + 1) * z ^ Suc k)
          has_real_derivative c / (real k + 1) * (real (Suc k) * z ^ k)) (at z)"
    using DERIV_cmult [OF DERIV_pow [of "Suc k" z], of "c / (real k + 1)"] by simp
  have "((\<lambda>z. c / (real k + 1) * z ^ Suc k + z ^ Suc (Suc k) * peval (pint_from (Suc k) cs) z)
          has_real_derivative c / (real k + 1) * (real (Suc k) * z ^ k) + z ^ Suc k * peval cs z) (at z)"
    by (rule DERIV_add [OF d1 Cons.IH])
  moreover have "c / (real k + 1) * (real (Suc k) * z ^ k) + z ^ Suc k * peval cs z
               = z ^ k * peval (c # cs) z"
    by (simp add: field_simps)
  ultimately show ?case unfolding eq by simp
qed

lemma pint_deriv: "((\<lambda>z. peval (pint p) z) has_real_derivative peval p z) (at z)"
  using pint_from_deriv [of 0 p z] by (simp add: pint_def)

lemma integral_nonneg:
  assumes "a \<le> b" and "\<And>z. a \<le> z \<Longrightarrow> z \<le> b \<Longrightarrow> 0 \<le> peval p z"
  shows "0 \<le> integral p a b"
proof -
  have "peval (pint p) a \<le> peval (pint p) b"
    by (rule DERIV_nonneg_imp_nondecreasing [OF assms(1)]) (use assms(2) pint_deriv in blast)
  then show ?thesis by (simp add: integral_def)
qed

lemma integral_unique:
  assumes "\<And>z. (G has_real_derivative peval p z) (at z)"
  shows "integral p a b = G b - G a"
proof -
  have "((\<lambda>z. peval (pint p) z - G z) has_real_derivative peval p z - peval p z) (at z)" for z
    by (rule DERIV_diff [OF pint_deriv assms])
  then have "\<forall>z. ((\<lambda>z. peval (pint p) z - G z) has_real_derivative 0) (at z)"
    by simp
  from DERIV_isconst_all [OF this, of b a] show ?thesis
    by (simp add: integral_def)
qed

lemma integral_split: "integral p a b + integral p b c = integral p a c"
  by (simp add: integral_def)

lemma integral_huygens:
  "integral (padd (pscale (1 / 4) (pmul q q)) (pmul (pmul [- a, 1] [- a, 1]) q)) x y
   = integral (padd (pscale (1 / 4) (pmul q q)) (pmul (pmul [- 0, 1] [- 0, 1]) q)) x y
     - 2 * a * integral (pmul [0, 1] q) x y + a\<^sup>2 * integral q x y"
proof -
  let ?G = "\<lambda>z. peval (pint (padd (pscale (1 / 4) (pmul q q)) (pmul (pmul [- 0, 1] [- 0, 1]) q))) z
            - 2 * a * peval (pint (pmul [0, 1] q)) z + a\<^sup>2 * peval (pint q) z"
  have "(?G has_real_derivative
          peval (padd (pscale (1 / 4) (pmul q q)) (pmul (pmul [- a, 1] [- a, 1]) q)) z) (at z)" for z
    by (auto intro!: derivative_eq_intros pint_deriv simp: power2_eq_square algebra_simps)
  from integral_unique [of ?G, OF this] show ?thesis
    by (simp add: integral_def algebra_simps)
qed

section \<open>Measures of a solid\<close>

lemma integ_Nil [simp]: "integ F [] = 0"
  by (simp add: integ_def)

lemma integ_Cons [simp]: "integ F (p # s) = F (prof p) (hi p) - F (prof p) (lo p) + integ F s"
  by (simp add: integ_def)

lemma integ_append [simp]: "integ F (a @ b) = integ F a + integ F b"
  by (simp add: integ_def)

lemma integrate_integ: "integrate f s = integ (\<lambda>q x. peval (pint (f q)) x) s"
  by (simp add: integrate_def integ_def integral_def)

lemma sum_list_combine:
  fixes f g h k :: "'a \<Rightarrow> real"
  assumes "\<And>p. f p = g p - c * h p + d * k p"
  shows "(\<Sum>p\<leftarrow>s. f p) = (\<Sum>p\<leftarrow>s. g p) - c * (\<Sum>p\<leftarrow>s. h p) + d * (\<Sum>p\<leftarrow>s. k p)"
  by (induction s) (simp_all add: assms algebra_simps)

lemma huygens:
  "second_moment a s = second_moment 0 s - 2 * a * first_moment s + a\<^sup>2 * Volume s"
proof -
  let ?X = "integrate (\<lambda>q. padd (pscale (1 / 4) (pmul q q)) (pmul (pmul [- 0, 1] [- 0, 1]) q)) s"
  let ?Y = "integrate (\<lambda>q. pmul [0, 1] q) s"
  let ?Z = "integrate (\<lambda>q. q) s"
  have eq: "integrate (\<lambda>q. padd (pscale (1 / 4) (pmul q q)) (pmul (pmul [- a, 1] [- a, 1]) q)) s
      = ?X - 2 * a * ?Y + a\<^sup>2 * ?Z"
    unfolding integrate_def
    by (rule sum_list_combine) (rule integral_huygens)
  have "second_moment a s = pi * (?X - 2 * a * ?Y + a\<^sup>2 * ?Z)"
    by (simp only: second_moment_def eq)
  also have "\<dots> = pi * ?X - 2 * a * (pi * ?Y) + a\<^sup>2 * (pi * ?Z)"
    by (simp only: right_diff_distrib distrib_left mult.left_commute)
  also have "\<dots> = second_moment 0 s - 2 * a * first_moment s + a\<^sup>2 * Volume s"
    by (simp only: second_moment_def first_moment_def Volume_def)
  finally show ?thesis .
qed

lemma inertia_about_origin:
  "matrixOfInertia s ! 0 ! 0 + Volume s * (vz (centerOfMass s))\<^sup>2 = second_moment 0 s"
  by (simp add: matrixOfInertia_def Let_def centerOfMass_def huygens [of "first_moment s / Volume s"]
      power2_eq_square field_simps)

lemma peval_second_moment:
  "peval (padd (pscale (1 / 4) (pmul q q)) (pmul (pmul [- a, 1] [- a, 1]) q)) z
   = (peval q z)\<^sup>2 / 4 + (z - a)\<^sup>2 * peval q z"
  by (simp add: power2_eq_square algebra_simps)

lemma integrate_nonneg:
  assumes "\<forall>p\<in>set s. wf_slab p" "\<And>q z. 0 \<le> peval q z \<Longrightarrow> 0 \<le> peval (f q) z"
  shows "0 \<le> integrate f s"
  unfolding integrate_def
  using assms(1)
proof (induction s)
  case Nil
  then show ?case by simp
next
  case (Cons p s)
  have "0 \<le> integral (f (prof p)) (lo p) (hi p)"
    using Cons.prems by (intro integral_nonneg assms(2)) (auto simp: wf_slab_def)
  with Cons show ?case by simp
qed

lemma Volume_nonneg: "\<forall>p\<in>set s. wf_slab p \<Longrightarrow> 0 \<le> Volume s"
  unfolding Volume_def by (intro mult_nonneg_nonneg integrate_nonneg) auto

lemma second_moment_nonneg: "\<forall>p\<in>set s. wf_slab p \<Longrightarrow> 0 \<le> second_moment a s"
  unfolding second_moment_def
  by (intro mult_nonneg_nonneg integrate_nonneg) (simp_all only: peval_second_moment, simp_all)

lemma mass_properties_cong:
  assumes "\<And>F. integ F s = integ F s'"
  shows "mass_properties s = mass_properties s'"
proof -
  have "integrate f s = integrate f s'" for f
    by (simp add: integrate_integ assms)
  then show ?thesis
    by (simp add: mass_properties_def matrixOfInertia_def centerOfMass_def Volume_def
        first_moment_def second_moment_def)
qed

lemma mass_properties_Nil: "mass_properties [] = (0, 0, 0)"
  by (simp add: mass_properties_def Volume_def integrate_def centerOfMass_def matrixOfInertia_def
      second_moment_def)

lemma mass_properties_central:
  "(case mass_properties s of (V, g, I) \<Rightarrow> I - V * g\<^sup>2 = second_moment g s)"
  by (simp add: mass_properties_def matrixOfInertia_def Let_def)

lemma mass_properties_inertia_nonneg:
  assumes "\<forall>p\<in>set s. wf_slab p"
  shows "0 \<le> snd (snd (mass_properties s))"
proof -
  have "snd (snd (mass_properties s)) = second_moment 0 s"
    by (simp add: mass_properties_def inertia_about_origin)
  then show ?thesis
    using second_moment_nonneg [OF assms, of 0] by simp
qed

section \<open>Taking away what a tool covers\<close>

lemma midpoint_between:
  fixes u v :: real
  assumes "\<not> v \<le> u"
  shows "u < (u + v) / 2" "(u + v) / 2 < v"
  using assms by (simp_all add: field_simps)

lemma uncover_slab_sub:
  assumes "lo s \<le> hi s" "p \<in> set (uncover_slab m t s)"
  shows "prof p = prof s \<and> lo s \<le> lo p \<and> lo p \<le> hi p \<and> hi p \<le> hi s"
  using assms by (auto simp: uncover_slab_def Let_def split: if_splits)

lemma integ_uncover_slab_cov:
  assumes "lo s \<le> hi s" "lo t \<le> hi t"
    and "\<And>z. max (lo s) (lo t) < z \<Longrightarrow> z < min (hi s) (hi t) \<Longrightarrow> covers m t s z"
  shows "integ F (uncover_slab m t s) = integ (clip (lo t) (hi t) F) [s]"
proof (cases "min (hi s) (hi t) \<le> max (lo s) (lo t)")
  case True
  with assms(1,2) show ?thesis
    by (auto simp: uncover_slab_def integ_def clip_def min_def max_def split: if_splits)
next
  case False
  then have "covers m t s ((max (lo s) (lo t) + min (hi s) (hi t)) / 2)"
    by (intro assms(3) midpoint_between)
  with False assms(1,2) show ?thesis
    by (auto simp: uncover_slab_def integ_def clip_def Let_def min_def max_def split: if_splits)
qed

lemma integ_uncover_slab_unc:
  assumes "lo s \<le> hi s"
    and "\<And>z. max (lo s) (lo t) < z \<Longrightarrow> z < min (hi s) (hi t) \<Longrightarrow> \<not> covers m t s z"
  shows "integ F (uncover_slab m t s) = integ F [s]"
proof (cases "min (hi s) (hi t) \<le> max (lo s) (lo t)")
  case True
  then show ?thesis
    by (simp add: uncover_slab_def)
next
  case False
  then have "\<not> covers m t s ((max (lo s) (lo t) + min (hi s) (hi t)) / 2)"
    by (intro assms(2) midpoint_between)
  with False assms(1) show ?thesis
    by (auto simp: uncover_slab_def integ_def Let_def min_def max_def split: if_splits)
qed

lemma step_sub:
  assumes "\<forall>s\<in>set a. lo s \<le> hi s" "p \<in> set (concat (map (uncover_slab m t) a))"
  shows "\<exists>s\<in>set a. prof p = prof s \<and> lo s \<le> lo p \<and> lo p \<le> hi p \<and> hi p \<le> hi s"
  using assms uncover_slab_sub by fastforce

lemma uncover_sub:
  assumes "\<forall>s\<in>set a. lo s \<le> hi s" "p \<in> set (uncover m a b)"
  shows "\<exists>s\<in>set a. prof p = prof s \<and> lo s \<le> lo p \<and> lo p \<le> hi p \<and> hi p \<le> hi s"
  using assms unfolding uncover_def
proof (induction b arbitrary: a p)
  case Nil
  then show ?case by auto
next
  case (Cons t b)
  let ?a' = "concat (map (uncover_slab m t) a)"
  have a': "\<forall>s\<in>set ?a'. lo s \<le> hi s"
    using step_sub [OF Cons.prems(1)] by blast
  from Cons.prems(2) have "p \<in> set (fold (\<lambda>t acc. concat (map (uncover_slab m t) acc)) b ?a')"
    by simp
  from Cons.IH [OF a' this] obtain s' where s': "s' \<in> set ?a'" "prof p = prof s'"
    "lo s' \<le> lo p" "lo p \<le> hi p" "hi p \<le> hi s'" by blast
  from step_sub [OF Cons.prems(1) s'(1)] obtain s where "s \<in> set a" "prof s' = prof s"
    "lo s \<le> lo s'" "hi s' \<le> hi s" by blast
  with s' show ?case by (intro bexI [of _ s]) auto
qed

lemma uncover_append: "uncover m (a @ a') b = uncover m a b @ uncover m a' b"
  unfolding uncover_def by (induction b arbitrary: a a') simp_all

lemma step_cov:
  assumes "\<forall>p\<in>set a. lo p \<le> hi p" "lo t \<le> hi t"
    and "\<forall>p\<in>set a. \<forall>z. max (lo p) (lo t) < z \<and> z < min (hi p) (hi t) \<longrightarrow> covers m t p z"
  shows "integ F (concat (map (uncover_slab m t) a)) = integ (clip (lo t) (hi t) F) a"
  using assms
proof (induction a)
  case Nil
  then show ?case by simp
next
  case (Cons p a)
  have "integ F (uncover_slab m t p) = integ (clip (lo t) (hi t) F) [p]"
    using Cons.prems by (intro integ_uncover_slab_cov) auto
  with Cons show ?case by simp
qed

lemma step_unc:
  assumes "\<forall>p\<in>set a. lo p \<le> hi p"
    and "\<forall>p\<in>set a. \<forall>z. max (lo p) (lo t) < z \<and> z < min (hi p) (hi t) \<longrightarrow> \<not> covers m t p z"
  shows "integ F (concat (map (uncover_slab m t) a)) = integ F a"
  using assms
proof (induction a)
  case Nil
  then show ?case by simp
next
  case (Cons p a)
  have "integ F (uncover_slab m t p) = integ F [p]"
    using Cons.prems by (intro integ_uncover_slab_unc) auto
  with Cons show ?case by simp
qed

text \<open>Tools with a tag: does the tool cover the body along its own heights, or nowhere
  there?  And bodies with a tag, against one tool.\<close>

lemma uncover_tools:
  assumes "\<forall>p\<in>set a. lo p \<le> hi p \<and> prof p = q"
    and "\<forall>(b, t)\<in>set T. lo t \<le> hi t \<and>
           (\<forall>z. lo t < z \<and> z < hi t \<longrightarrow> covers m t \<lparr>lo = 0, hi = 0, prof = q\<rparr> z = b)"
  shows "integ F (uncover m a (map snd T))
       = integ (foldr (\<lambda>(b, t) G. if b then clip (lo t) (hi t) G else G) T F) a"
  using assms
proof (induction T arbitrary: a F)
  case Nil
  then show ?case by (simp add: uncover_def)
next
  case (Cons bt T)
  obtain b t where bt: "bt = (b, t)" by (cases bt)
  let ?a' = "concat (map (uncover_slab m t) a)"
  have a_ok: "\<forall>p\<in>set a. lo p \<le> hi p"
    using Cons.prems(1) by blast
  have a': "\<forall>p\<in>set ?a'. lo p \<le> hi p \<and> prof p = q"
    using step_sub [OF a_ok, of _ m t] Cons.prems(1) by fastforce
  have t: "lo t \<le> hi t"
    "\<forall>z. lo t < z \<and> z < hi t \<longrightarrow> covers m t \<lparr>lo = 0, hi = 0, prof = q\<rparr> z = b"
    using Cons.prems(2) bt by auto
  have cov: "covers m t p z = covers m t \<lparr>lo = 0, hi = 0, prof = q\<rparr> z" if "p \<in> set a" for p z
    using Cons.prems(1) that by (simp add: covers_def)
  have "integ F (uncover m a (map snd (bt # T))) = integ F (uncover m ?a' (map snd T))"
    by (simp add: uncover_def bt)
  also have "\<dots> = integ (foldr (\<lambda>(b, t) G. if b then clip (lo t) (hi t) G else G) T F) ?a'"
    using Cons.prems(2) by (intro Cons.IH a') auto
  also have "\<dots> = integ (foldr (\<lambda>(b, t) G. if b then clip (lo t) (hi t) G else G) (bt # T) F) a"
  proof (cases b)
    case True
    then show ?thesis
      using a_ok t cov by (simp add: bt) (intro step_cov, auto)
  next
    case False
    then show ?thesis
      using a_ok t cov by (simp add: bt) (intro step_unc, auto)
  qed
  finally show ?case .
qed

lemma uncover_bodies:
  assumes "lo t \<le> hi t"
    and "\<forall>(b, p)\<in>set a. lo p \<le> hi p \<and>
           (\<forall>z. lo p < z \<and> z < hi p \<longrightarrow> covers m t p z = b)"
  shows "integ F (uncover m (map snd a) [t])
       = (\<Sum>(b, p)\<leftarrow>a. if b then integ (clip (lo t) (hi t) F) [p] else integ F [p])"
  using assms(2)
proof (induction a)
  case Nil
  then show ?case by (simp add: uncover_def)
next
  case (Cons bp a)
  obtain b p where bp: "bp = (b, p)" by (cases bp)
  have p: "lo p \<le> hi p" "\<And>z. lo p < z \<Longrightarrow> z < hi p \<Longrightarrow> covers m t p z = b"
    using Cons.prems bp by auto
  have "integ F (uncover_slab m t p) = (if b then integ (clip (lo t) (hi t) F) [p] else integ F [p])"
  proof (cases b)
    case True
    with p assms(1) show ?thesis
      by (simp only: if_True) (intro integ_uncover_slab_cov, auto)
  next
    case False
    with p show ?thesis
      by (simp only: if_False) (intro integ_uncover_slab_unc, auto)
  qed
  moreover have "integ F (uncover m (map snd a) [t])
       = (\<Sum>(b, p)\<leftarrow>a. if b then integ (clip (lo t) (hi t) F) [p] else integ F [p])"
    using Cons.prems by (intro Cons.IH) auto
  ultimately show ?case
    by (simp add: uncover_def bp)
qed

lemma union_integ:
  "integ F (union_solid a b) = integ F (uncover True a b) + integ F (uncover False b a)"
  by (simp add: union_solid_def)

lemma union_sub:
  assumes "\<forall>s\<in>set a. lo s \<le> hi s" "\<forall>s\<in>set b. lo s \<le> hi s" "p \<in> set (union_solid a b)"
  shows "\<exists>s\<in>set a \<union> set b. prof p = prof s \<and> lo s \<le> lo p \<and> lo p \<le> hi p \<and> hi p \<le> hi s"
  using assms uncover_sub [of a p True b] uncover_sub [of b p False a]
  by (auto simp: union_solid_def)

lemma wf_sub:
  assumes "wf_slab s" "prof p = prof s" "lo s \<le> lo p" "lo p \<le> hi p" "hi p \<le> hi s"
  shows "wf_slab p"
  using assms by (auto simp: wf_slab_def)

lemma wf_uncover:
  assumes "\<forall>p\<in>set a. wf_slab p"
  shows "\<forall>p\<in>set (uncover m a b). wf_slab p"
proof
  fix p assume "p \<in> set (uncover m a b)"
  with uncover_sub [of a p m b] assms obtain s where "s \<in> set a" "prof p = prof s"
    "lo s \<le> lo p" "lo p \<le> hi p" "hi p \<le> hi s"
    by (auto simp: wf_slab_def)
  with assms show "wf_slab p"
    by (auto simp: wf_slab_def)
qed

lemma wf_cut: "\<forall>p\<in>set a. wf_slab p \<Longrightarrow> \<forall>p\<in>set (cut_solid a t). wf_slab p"
  by (simp add: cut_solid_def wf_uncover)

lemma wf_union:
  "\<forall>p\<in>set a. wf_slab p \<Longrightarrow> \<forall>p\<in>set b. wf_slab p \<Longrightarrow> \<forall>p\<in>set (union_solid a b). wf_slab p"
  using wf_uncover [of a True b] wf_uncover [of b False a] by (auto simp: union_solid_def)

lemma square_le_radius:
  fixes z R :: real
  assumes "- R \<le> z" "z \<le> R"
  shows "z * z \<le> R\<^sup>2"
  using assms power2_le_iff_abs_le [of R z] by (simp add: power2_eq_square)

lemma wf_sphere: "0 \<le> R \<Longrightarrow> \<forall>p\<in>set (sphere R). wf_slab p"
  by (auto simp: sphere_def wf_slab_def square_le_radius)

lemma wf_rod: "0 \<le> H \<Longrightarrow> \<forall>p\<in>set (rod H r). wf_slab p"
  by (auto simp: rod_def wf_slab_def)

lemma wf_translate: "\<forall>p\<in>set a. wf_slab p \<Longrightarrow> \<forall>p\<in>set (translate d a). wf_slab p"
  by (auto simp: translate_def wf_slab_def)

section \<open>The drill\<close>

lemma tool_eq:
  "translate (H / 2 + h) (rod H r) = [\<lparr>lo = h, hi = h + H, prof = pshift (H / 2 + h) [r\<^sup>2]\<rparr>]"
  by (simp add: translate_def rod_def)

lemma cut_tool:
  assumes "\<forall>p\<in>set a. lo p \<le> hi p" "0 \<le> H"
    and "\<forall>p\<in>set a. \<forall>z. peval (prof p) z \<le> r\<^sup>2"
  shows "integ F (cut_solid a (translate (H / 2 + h) (rod H r))) = integ (clip h (h + H) F) a"
proof -
  let ?t = "\<lparr>lo = h, hi = h + H, prof = pshift (H / 2 + h) [r\<^sup>2]\<rparr>"
  have "integ F (concat (map (uncover_slab False ?t) a)) = integ (clip (lo ?t) (hi ?t) F) a"
    using assms by (intro step_cov) (auto simp: covers_def)
  then show ?thesis
    by (simp add: cut_solid_def uncover_def tool_eq)
qed

lemma clip_outside:
  assumes "\<forall>p\<in>set s. lo p \<le> hi p \<and> (hi p \<le> a \<or> b \<le> lo p)" "a \<le> b"
  shows "integ (clip a b F) s = integ F s"
  using assms
  by (induction s) (auto simp: clip_def min_absorb1 min_absorb2 max_absorb1 max_absorb2)

lemma clip_inside:
  assumes "\<forall>p\<in>set s. a \<le> lo p \<and> lo p \<le> hi p \<and> hi p \<le> b"
  shows "integ (clip a b F) s = 0"
  using assms
  by (induction s) (auto simp: clip_def min_absorb1 min_absorb2 max_absorb1 max_absorb2)

lemma clipped_integral_mono:
  assumes "wf_slab p" "h1 \<le> h2"
  shows "integral (prof p) (min (lo p) h1) (min (hi p) h1)
       \<le> integral (prof p) (min (lo p) h2) (min (hi p) h2)"
proof -
  let ?q = "prof p"
  from assms(1) have ord: "lo p \<le> hi p"
    and nn: "\<And>z. lo p \<le> z \<Longrightarrow> z \<le> hi p \<Longrightarrow> 0 \<le> peval ?q z"
    by (auto simp: wf_slab_def)
  consider "h2 \<le> lo p" | "h1 \<le> lo p" "lo p < h2" | "lo p < h1"
    by linarith
  then show ?thesis
  proof cases
    case 1
    with assms(2) ord have "min (lo p) h1 = h1" "min (hi p) h1 = h1" "min (lo p) h2 = h2"
      "min (hi p) h2 = h2"
      by (simp_all add: min_absorb2)
    then show ?thesis
      by (simp add: integral_def)
  next
    case 2
    then have "min (lo p) h1 = h1" "min (hi p) h1 = h1"
      using ord by (simp_all add: min_absorb2)
    then have "integral ?q (min (lo p) h1) (min (hi p) h1) = 0"
      by (simp add: integral_def)
    moreover have "0 \<le> integral ?q (lo p) (min (hi p) h2)"
      using 2 ord by (intro integral_nonneg nn) auto
    moreover have "min (lo p) h2 = lo p"
      using 2 by simp
    ultimately show ?thesis by simp
  next
    case 3
    have "0 \<le> integral ?q (min (hi p) h1) (min (hi p) h2)"
      using 3 ord assms(2) by (intro integral_nonneg nn) auto
    moreover have "integral ?q (lo p) (min (hi p) h1) + integral ?q (min (hi p) h1) (min (hi p) h2)
        = integral ?q (lo p) (min (hi p) h2)"
      by (rule integral_split)
    moreover have "min (lo p) h1 = lo p" "min (lo p) h2 = lo p"
      using 3 assms(2) by simp_all
    ultimately show ?thesis by simp
  qed
qed

lemma cut_volume_mono:
  assumes wf: "\<forall>p\<in>set s. wf_slab p" and cov: "\<forall>p\<in>set s. \<forall>z. peval (prof p) z \<le> r\<^sup>2"
    and top: "\<forall>p\<in>set s. hi p \<le> h1 + H" and "0 \<le> H" "h1 \<le> h2"
  shows "Volume (cut_solid s (translate (H / 2 + h1) (rod H r)))
       \<le> Volume (cut_solid s (translate (H / 2 + h2) (rod H r)))"
proof -
  have V: "Volume (cut_solid s (translate (H / 2 + h) (rod H r)))
      = pi * (\<Sum>p\<leftarrow>s. integral (prof p) (min (lo p) h) (min (hi p) h))" if "h1 \<le> h" for h
  proof -
    have "integ (clip h (h + H) (\<lambda>q x. peval (pint q) x)) s
        = (\<Sum>p\<leftarrow>s. integral (prof p) (min (lo p) h) (min (hi p) h))"
      using wf top that
      by (induction s) (auto simp: clip_def integral_def wf_slab_def max_def)
    then show ?thesis
      using wf cov \<open>0 \<le> H\<close>
      by (simp add: Volume_def integrate_integ cut_tool wf_slab_def)
  qed
  have "(\<Sum>p\<leftarrow>s. integral (prof p) (min (lo p) h1) (min (hi p) h1))
      \<le> (\<Sum>p\<leftarrow>s. integral (prof p) (min (lo p) h2) (min (hi p) h2))"
    using wf \<open>h1 \<le> h2\<close> by (intro sum_list_mono clipped_integral_mono) auto
  then show ?thesis
    using V [of h1] V [of h2] \<open>h1 \<le> h2\<close> by (simp add: mult_left_mono)
qed

section \<open>The filled sphere\<close>

lemma sphere_measure:
  assumes "0 \<le> R"
  shows "integ F (cut_solid (sphere R) (translate (10 * R / 2 + h) (rod (10 * R) R)))
       = integ (clip h (h + 10 * R) F) (sphere R)"
  using assms by (intro cut_tool) (auto simp: sphere_def)

lemma sphere_values_eq:
  "sphere_values R h
   = mass_properties (cut_solid (sphere R) (translate (10 * R / 2 + h) (rod (10 * R) R)))"
  by (simp only: sphere_values_def)

lemma wf_filled_sphere:
  assumes "0 \<le> R"
  shows "\<forall>p\<in>set (cut_solid (sphere R) t). wf_slab p"
  by (intro wf_cut wf_sphere assms)

lemma sphere_integ:
  assumes "0 \<le> R"
  shows "integ F (cut_solid (sphere R) (translate (10 * R / 2 + h) (rod (10 * R) R)))
       = clip h (h + 10 * R) F [R\<^sup>2, 0, - 1] R - clip h (h + 10 * R) F [R\<^sup>2, 0, - 1] (- R)"
  by (simp only: sphere_measure [OF assms]) (simp add: sphere_def)

lemma sphere_full:
  assumes "0 \<le> R" "R \<le> h \<or> h \<le> - 11 * R"
  shows "sphere_values R h = mass_properties (sphere R)"
  unfolding sphere_values_eq
proof (rule mass_properties_cong)
  fix F
  from assms(2) have "(min R h = R \<and> max R (h + 10 * R) = h + 10 * R \<and> min (- R) h = - R
          \<and> max (- R) (h + 10 * R) = h + 10 * R)
       \<or> (min R h = h \<and> max R (h + 10 * R) = R \<and> min (- R) h = h
          \<and> max (- R) (h + 10 * R) = - R)"
    using assms(1) by (auto simp: min_def max_def)
  then show "integ F (cut_solid (sphere R) (translate (10 * R / 2 + h) (rod (10 * R) R)))
      = integ F (sphere R)"
    unfolding sphere_integ [OF assms(1)] clip_def
    by (auto simp: sphere_def)
qed

lemma sphere_empty:
  assumes "0 \<le> R" "- 9 * R \<le> h" "h \<le> - R"
  shows "sphere_values R h = (0, 0, 0)"
  unfolding sphere_values_eq mass_properties_Nil [symmetric]
proof (rule mass_properties_cong)
  fix F
  have "min R h = h" "max R (h + 10 * R) = h + 10 * R" "min (- R) h = h"
    "max (- R) (h + 10 * R) = h + 10 * R"
    using assms by (auto simp: min_def max_def)
  then show "integ F (cut_solid (sphere R) (translate (10 * R / 2 + h) (rod (10 * R) R)))
      = integ F []"
    unfolding sphere_integ [OF assms(1)] clip_def
    by simp
qed

lemma sphere_volume:
  assumes "0 \<le> R" "- R \<le> h" "h \<le> R"
  shows "fst (sphere_values R h) = pi * (h + R)\<^sup>2 * (3 * R - (h + R)) / 3"
proof -
  have "fst (sphere_values R h)
      = pi * (clip h (h + 10 * R) (\<lambda>q x. peval (pint q) x) [R\<^sup>2, 0, - 1] R
            - clip h (h + 10 * R) (\<lambda>q x. peval (pint q) x) [R\<^sup>2, 0, - 1] (- R))"
    by (simp only: sphere_values_eq mass_properties_def Volume_def integrate_integ
        sphere_integ [OF assms(1)] fst_conv)
  also have "\<dots> = pi * (h + R)\<^sup>2 * (3 * R - (h + R)) / 3"
    using assms
    by (simp add: clip_def pint_def min_def max_def power2_eq_square power3_eq_cube
        algebra_simps)
  finally show ?thesis .
qed

lemma sphere_top_volume:
  assumes "0 < R"
  shows "fst (sphere_values R R) = 4 / 3 * pi * R ^ 3"
  using sphere_volume [of R R] assms by (simp add: power2_eq_square power3_eq_cube)

text \<open>The full sphere has the textbook moment of inertia \<open>2/5 M R\<^sup>2\<close> about a
  diameter, with \<open>M = 4/3 \<pi> R\<^sup>3\<close>.\<close>

lemma sphere_full_inertia:
  assumes "0 < R"
  shows "snd (snd (sphere_values R R)) = 8 / 15 * pi * R ^ 5"
proof -
  have "snd (snd (sphere_values R R)) = second_moment 0 (sphere R)"
    using sphere_full [of R R] assms by (simp add: mass_properties_def inertia_about_origin)
  also have "\<dots> = 8 / 15 * pi * R ^ 5"
    by (simp add: second_moment_def integrate_def integral_def sphere_def pint_def pscale_def
        power2_eq_square power3_eq_cube power4_eq_xxxx eval_nat_numeral field_simps)
  finally show ?thesis .
qed

lemma sphere_first_moment:
  assumes "0 \<le> R" "- R \<le> h" "h \<le> R"
  shows "first_moment (cut_solid (sphere R) (translate (10 * R / 2 + h) (rod (10 * R) R)))
       = - pi * (R\<^sup>2 - h\<^sup>2)\<^sup>2 / 4"
proof -
  have "first_moment (cut_solid (sphere R) (translate (10 * R / 2 + h) (rod (10 * R) R)))
      = pi * (clip h (h + 10 * R) (\<lambda>q x. peval (pint (pmul [0, 1] q)) x) [R\<^sup>2, 0, - 1] R
            - clip h (h + 10 * R) (\<lambda>q x. peval (pint (pmul [0, 1] q)) x) [R\<^sup>2, 0, - 1] (- R))"
    by (simp only: first_moment_def integrate_integ sphere_integ [OF assms(1)])
  also have "\<dots> = - pi * (R\<^sup>2 - h\<^sup>2)\<^sup>2 / 4"
    using assms
    by (simp add: clip_def pint_def pscale_def min_def max_def power2_eq_square power4_eq_xxxx
        algebra_simps)
  finally show ?thesis .
qed

lemma cap_quotient:
  fixes A B C :: real
  assumes "A \<noteq> 0" "C \<noteq> 0"
  shows "(- pi * (B * A) / 4) / (pi * A * C / 3) = - 3 * B / (4 * C)"
  using assms by (simp add: field_simps)

lemma sphere_centroid:
  assumes "0 < R" "- R < h" "h \<le> R"
  shows "fst (snd (sphere_values R h)) = - 3 * (R - h)\<^sup>2 / (4 * (2 * R - h))"
proof -
  let ?s = "cut_solid (sphere R) (translate (10 * R / 2 + h) (rod (10 * R) R))"
  have V: "Volume ?s = pi * (h + R)\<^sup>2 * (3 * R - (h + R)) / 3"
    using sphere_volume [of R h] assms
    by (simp add: sphere_values_eq mass_properties_def)
  have M: "first_moment ?s = - pi * (R\<^sup>2 - h\<^sup>2)\<^sup>2 / 4"
    using sphere_first_moment [of R h] assms by simp
  have nz: "Volume ?s \<noteq> 0"
    unfolding V using assms by simp
  have "fst (snd (sphere_values R h)) = first_moment ?s / Volume ?s"
    using nz by (simp add: sphere_values_eq mass_properties_def centerOfMass_def)
  also have "\<dots> = (- pi * ((R - h)\<^sup>2 * (h + R)\<^sup>2) / 4) / (pi * (h + R)\<^sup>2 * (2 * R - h) / 3)"
    unfolding V M by (simp add: power2_eq_square algebra_simps)
  also have "\<dots> = - 3 * (R - h)\<^sup>2 / (4 * (2 * R - h))"
    using assms by (intro cap_quotient) auto
  finally show ?thesis .
qed

section \<open>The capped cylinder\<close>

lemma rod_slab: "rod (L - 2 * r) r = [cyl_slab (L / 2 - r) r]"
  by (simp add: rod_def cyl_slab_def field_simps)

lemma ball_slab: "translate d (sphere r) = [ball_slab d r]"
  by (simp add: translate_def sphere_def ball_slab_def)

lemma lo_cyl [simp]: "lo (cyl_slab c r) = - c" and hi_cyl [simp]: "hi (cyl_slab c r) = c"
  by (simp_all add: cyl_slab_def)

lemma lo_ball [simp]: "lo (ball_slab d r) = d - r" and hi_ball [simp]: "hi (ball_slab d r) = d + r"
  by (simp_all add: ball_slab_def)

lemma prof_cyl: "prof (cyl_slab c r) = [r\<^sup>2]"
  by (simp add: cyl_slab_def)

lemma ball_prof: "peval (prof (ball_slab d r)) z = r\<^sup>2 - (z - d)\<^sup>2"
  by (simp add: ball_slab_def power2_eq_square algebra_simps)

lemma cyl_prof: "peval (prof (cyl_slab c r)) z = r\<^sup>2"
  by (simp add: cyl_slab_def)

lemma ball_diff: "peval (prof (ball_slab c r)) z - peval (prof (ball_slab (- c) r)) z = 4 * c * z"
  by (simp add: ball_prof power2_eq_square algebra_simps)

lemma cyl_covers_ball: "prof t = prof (cyl_slab c r) \<Longrightarrow> prof s = prof (ball_slab d r) \<Longrightarrow> covers False t s z"
  by (simp add: covers_def ball_prof cyl_prof)

lemma ball_not_over_cyl: "prof s = prof (cyl_slab c r) \<Longrightarrow> prof t = prof (ball_slab d r) \<Longrightarrow> \<not> covers True t s z"
  by (simp add: covers_def ball_prof cyl_prof)

lemma ball_over_ball:
  assumes "prof s = prof (ball_slab c r)" "prof t = prof (ball_slab (- c) r)"
  shows "covers True t s z \<longleftrightarrow> c * z < 0"
proof -
  have "covers True t s z \<longleftrightarrow> peval (prof (ball_slab c r)) z - peval (prof (ball_slab (- c) r)) z < 0"
    using assms by (simp add: covers_def)
  then show ?thesis
    unfolding ball_diff by (simp add: algebra_simps)
qed

lemma ball_under_ball:
  assumes "prof s = prof (ball_slab (- c) r)" "prof t = prof (ball_slab c r)"
  shows "covers False t s z \<longleftrightarrow> 0 \<le> c * z"
proof -
  have "covers False t s z \<longleftrightarrow> 0 \<le> peval (prof (ball_slab c r)) z - peval (prof (ball_slab (- c) r)) z"
    using assms by (simp add: covers_def)
  then show ?thesis
    unfolding ball_diff by (simp add: algebra_simps)
qed

lemma wf_ball: "0 \<le> r \<Longrightarrow> wf_slab (ball_slab d r)"
  using square_le_radius [of r] by (auto simp: wf_slab_def ball_prof power2_eq_square)

lemma wf_cyl: "0 \<le> c \<Longrightarrow> wf_slab (cyl_slab c r)"
  by (simp add: wf_slab_def cyl_prof)

lemma first_union_flat:
  "union_solid [cyl_slab 0 r] [ball_slab 0 r] = [cyl_slab 0 r, ball_slab 0 r]" if "0 < r"
  using that by (simp add: union_solid_def uncover_def uncover_slab_def)

lemma first_union:
  assumes "0 < r" "0 < c"
  shows "union_solid [cyl_slab c r] [ball_slab c r]
       = (if - c < c - r then [(cyl_slab c r)\<lparr>hi := c - r\<rparr>] else []) @
         [(cyl_slab c r)\<lparr>lo := max (- c) (c - r), hi := c\<rparr>] @
         (if c - r < - c then [(ball_slab c r)\<lparr>hi := - c\<rparr>] else []) @
         [(ball_slab c r)\<lparr>lo := c\<rparr>]"
  using assms
  by (simp add: union_solid_def uncover_def uncover_slab_def Let_def
      cyl_covers_ball ball_not_over_cyl)

lemma second_union_bodies:
  assumes "0 < r" "0 < c"
  shows "integ F (uncover True (union_solid [cyl_slab c r] [ball_slab c r]) [ball_slab (- c) r])
       = (F [r\<^sup>2] c - F [r\<^sup>2] (- c))
         + (F (prof (ball_slab c r)) (c + r) - F (prof (ball_slab c r)) c)"
proof -
  let ?T = "(if - c < c - r then [(False, (cyl_slab c r)\<lparr>hi := c - r\<rparr>)] else []) @
         [(False, (cyl_slab c r)\<lparr>lo := max (- c) (c - r), hi := c\<rparr>)] @
         (if c - r < - c then [(True, (ball_slab c r)\<lparr>hi := - c\<rparr>)] else []) @
         [(False, (ball_slab c r)\<lparr>lo := c\<rparr>)]"
  have U: "union_solid [cyl_slab c r] [ball_slab c r] = map snd ?T"
    unfolding first_union [OF assms] by simp
  have "integ F (uncover True (map snd ?T) [ball_slab (- c) r])
      = (\<Sum>(b, p)\<leftarrow>?T. if b then integ (clip (lo (ball_slab (- c) r)) (hi (ball_slab (- c) r)) F) [p]
                         else integ F [p])"
    using assms
    by (intro uncover_bodies)
       (auto simp: ball_not_over_cyl ball_over_ball mult_less_0_iff split: if_splits)
  also have "\<dots> = (F [r\<^sup>2] c - F [r\<^sup>2] (- c))
         + (F (prof (ball_slab c r)) (c + r) - F (prof (ball_slab c r)) c)"
    using assms by (auto simp: clip_def prof_cyl min_def max_def)
  finally show ?thesis
    unfolding U .
qed

lemma second_union_tools:
  assumes "0 < r" "0 < c"
  shows "integ F (uncover False [ball_slab (- c) r] (union_solid [cyl_slab c r] [ball_slab c r]))
       = F (prof (ball_slab (- c) r)) (- c) - F (prof (ball_slab (- c) r)) (- c - r)"
proof -
  let ?T = "(if - c < c - r then [(True, (cyl_slab c r)\<lparr>hi := c - r\<rparr>)] else []) @
         [(True, (cyl_slab c r)\<lparr>lo := max (- c) (c - r), hi := c\<rparr>)] @
         (if c - r < - c then [(False, (ball_slab c r)\<lparr>hi := - c\<rparr>)] else []) @
         [(True, (ball_slab c r)\<lparr>lo := c\<rparr>)]"
  have U: "union_solid [cyl_slab c r] [ball_slab c r] = map snd ?T"
    unfolding first_union [OF assms] by simp
  have "integ F (uncover False [ball_slab (- c) r] (map snd ?T))
      = integ (foldr (\<lambda>(b, t) G. if b then clip (lo t) (hi t) G else G) ?T F) [ball_slab (- c) r]"
    using assms
    by (intro uncover_tools [where q = "prof (ball_slab (- c) r)"])
       (auto simp: cyl_covers_ball ball_under_ball zero_le_mult_iff split: if_splits)
  also have "\<dots> = F (prof (ball_slab (- c) r)) (- c) - F (prof (ball_slab (- c) r)) (- c - r)"
    using assms by (auto simp: clip_def min_def max_def)
  finally show ?thesis
    unfolding U .
qed

lemma flat_capsule_integ:
  assumes "0 < r"
  shows "integ F (union_solid (union_solid [cyl_slab 0 r] [ball_slab 0 r]) [ball_slab 0 r])
       = F (prof (ball_slab 0 r)) r - F (prof (ball_slab 0 r)) (- r)"
proof -
  let ?B = "[(False, cyl_slab 0 r), (False, ball_slab 0 r)]"
  let ?T = "[(True, cyl_slab 0 r), (True, ball_slab 0 r)]"
  have "integ F (uncover True (map snd ?B) [ball_slab 0 r])
      = (\<Sum>(b, p)\<leftarrow>?B. if b then integ (clip (lo (ball_slab 0 r)) (hi (ball_slab 0 r)) F) [p]
                         else integ F [p])"
    using assms by (intro uncover_bodies) (auto simp: covers_def cyl_prof ball_prof)
  moreover have "integ F (uncover False [ball_slab 0 r] (map snd ?T))
      = integ (foldr (\<lambda>(b, t) G. if b then clip (lo t) (hi t) G else G) ?T F) [ball_slab 0 r]"
    using assms
    by (intro uncover_tools [where q = "prof (ball_slab 0 r)"])
       (auto simp: covers_def cyl_prof ball_prof)
  ultimately show ?thesis
    using assms
    by (simp add: union_integ first_union_flat clip_def min_def max_def)
qed

lemma capsule_integ:
  assumes "0 < r" "0 \<le> c"
  shows "integ F (union_solid (union_solid [cyl_slab c r] [ball_slab c r]) [ball_slab (- c) r])
       = (F (prof (ball_slab (- c) r)) (- c) - F (prof (ball_slab (- c) r)) (- c - r))
         + (F [r\<^sup>2] c - F [r\<^sup>2] (- c))
         + (F (prof (ball_slab c r)) (c + r) - F (prof (ball_slab c r)) c)"
proof (cases "c = 0")
  case True
  then show ?thesis
    using flat_capsule_integ [OF assms(1), of F] by simp
next
  case False
  with assms have "0 < c" by simp
  then show ?thesis
    using second_union_bodies [OF assms(1), of c F] second_union_tools [OF assms(1), of c F]
    by (simp add: union_integ)
qed

lemma capsule_slabs:
  "capsule L r = union_solid (union_solid [cyl_slab (L / 2 - r) r] [ball_slab (L / 2 - r) r])
       [ball_slab (- (L / 2 - r)) r]"
proof -
  have "- L / 2 + r = - (L / 2 - r)" by simp
  then show ?thesis
    by (simp only: capsule_def rod_slab ball_slab)
qed

lemma capsule_sub:
  assumes "0 < r" "2 * r \<le> L" "p \<in> set (capsule L r)"
  shows "\<exists>s\<in>{cyl_slab (L / 2 - r) r, ball_slab (L / 2 - r) r, ball_slab (- (L / 2 - r)) r}.
           prof p = prof s \<and> lo s \<le> lo p \<and> lo p \<le> hi p \<and> hi p \<le> hi s"
proof -
  let ?c = "L / 2 - r"
  let ?U = "union_solid [cyl_slab ?c r] [ball_slab ?c r]"
  have U: "\<exists>s\<in>{cyl_slab ?c r, ball_slab ?c r}.
      prof q = prof s \<and> lo s \<le> lo q \<and> lo q \<le> hi q \<and> hi q \<le> hi s" if "q \<in> set ?U" for q
    using union_sub [of "[cyl_slab ?c r]" "[ball_slab ?c r]" q] that assms by auto
  then have ordered: "\<forall>s\<in>set ?U. lo s \<le> hi s"
    by blast
  from assms(3) have "p \<in> set (union_solid ?U [ball_slab (- ?c) r])"
    by (simp only: capsule_slabs)
  moreover have "\<forall>s\<in>set [ball_slab (- ?c) r]. lo s \<le> hi s"
    using assms by simp
  ultimately obtain s where s': "s \<in> set ?U \<union> set [ball_slab (- ?c) r]" and s: "prof p = prof s"
    "lo s \<le> lo p" "lo p \<le> hi p" "hi p \<le> hi s"
    using union_sub [OF ordered] by blast
  from s' have "s \<in> set ?U \<or> s = ball_slab (- ?c) r"
    by auto
  then show ?thesis
  proof
    assume "s \<in> set ?U"
    from U [OF this] s show ?thesis
      by fastforce
  next
    assume "s = ball_slab (- ?c) r"
    with s show ?thesis by blast
  qed
qed

lemma capsule_facts:
  assumes "0 < r" "2 * r \<le> L"
  shows "\<forall>p\<in>set (capsule L r).
           wf_slab p \<and> (\<forall>z. peval (prof p) z \<le> r\<^sup>2) \<and> - L / 2 \<le> lo p \<and> hi p \<le> L / 2"
proof
  fix p assume "p \<in> set (capsule L r)"
  from capsule_sub [OF assms this] obtain s where
    s: "s \<in> {cyl_slab (L / 2 - r) r, ball_slab (L / 2 - r) r, ball_slab (- (L / 2 - r)) r}"
    "prof p = prof s" "lo s \<le> lo p" "lo p \<le> hi p" "hi p \<le> hi s"
    by blast
  have "wf_slab s"
    using s(1) assms wf_ball [of r] wf_cyl [of "L / 2 - r" r] by auto
  then have "wf_slab p"
    using s by (intro wf_sub [of s p])
  moreover have "\<forall>z. peval (prof p) z \<le> r\<^sup>2"
    using s(1,2) by (auto simp: ball_prof cyl_prof)
  moreover have "- L / 2 \<le> lo p" "hi p \<le> L / 2"
    using s assms by auto
  ultimately show "wf_slab p \<and> (\<forall>z. peval (prof p) z \<le> r\<^sup>2) \<and> - L / 2 \<le> lo p \<and> hi p \<le> L / 2"
    by blast
qed

lemma capsule_values_eq:
  "capsule_values L r h
   = mass_properties (cut_solid (capsule L r) (translate (10 * L / 2 + h) (rod (10 * L) r)))"
  by (simp only: capsule_values_def)

lemma wf_filled_capsule:
  assumes "0 < r" "2 * r \<le> L"
  shows "\<forall>p\<in>set (cut_solid (capsule L r) t). wf_slab p"
  using capsule_facts [OF assms] by (intro wf_cut) blast

lemma capsule_cut_integ:
  assumes "0 < r" "2 * r \<le> L"
  shows "integ F (cut_solid (capsule L r) (translate (10 * L / 2 + h) (rod (10 * L) r)))
       = integ (clip h (h + 10 * L) F) (capsule L r)"
  using assms capsule_facts [OF assms]
  by (intro cut_tool) (auto simp: wf_slab_def)

lemma capsule_full:
  assumes "0 < r" "2 * r \<le> L" "L / 2 \<le> h \<or> h \<le> - L / 2 - 10 * L"
  shows "capsule_values L r h = mass_properties (capsule L r)"
  unfolding capsule_values_eq
proof (rule mass_properties_cong)
  fix F
  have "integ (clip h (h + 10 * L) F) (capsule L r) = integ F (capsule L r)"
    using assms capsule_facts [OF assms(1,2)]
    by (intro clip_outside) (fastforce simp: wf_slab_def)+
  then show "integ F (cut_solid (capsule L r) (translate (10 * L / 2 + h) (rod (10 * L) r)))
      = integ F (capsule L r)"
    by (simp only: capsule_cut_integ [OF assms(1,2)])
qed

lemma capsule_empty:
  assumes "0 < r" "2 * r \<le> L" "- L / 2 - 9 * L \<le> h" "h \<le> - L / 2"
  shows "capsule_values L r h = (0, 0, 0)"
  unfolding capsule_values_eq mass_properties_Nil [symmetric]
proof (rule mass_properties_cong)
  fix F
  have "integ (clip h (h + 10 * L) F) (capsule L r) = 0"
    using assms capsule_facts [OF assms(1,2)]
    by (intro clip_inside) (fastforce simp: wf_slab_def)
  then show "integ F (cut_solid (capsule L r) (translate (10 * L / 2 + h) (rod (10 * L) r)))
      = integ F []"
    by (simp only: capsule_cut_integ [OF assms(1,2)] integ_Nil)
qed

lemma capsule_volume_terms:
  "(peval (pint (prof (ball_slab (- c) r))) (- c) - peval (pint (prof (ball_slab (- c) r))) (- c - r))
   + (peval (pint [r\<^sup>2]) c - peval (pint [r\<^sup>2]) (- c))
   + (peval (pint (prof (ball_slab c r))) (c + r) - peval (pint (prof (ball_slab c r))) c)
   = r\<^sup>2 * (2 * c) + 4 / 3 * r ^ 3"
  by (simp add: ball_slab_def pint_def pscale_def power2_eq_square power3_eq_cube field_simps)

lemma capsule_moment_terms:
  "(peval (pint (pmul [0, 1] (prof (ball_slab (- c) r)))) (- c)
      - peval (pint (pmul [0, 1] (prof (ball_slab (- c) r)))) (- c - r))
   + (peval (pint (pmul [0, 1] [r\<^sup>2])) c - peval (pint (pmul [0, 1] [r\<^sup>2])) (- c))
   + (peval (pint (pmul [0, 1] (prof (ball_slab c r)))) (c + r)
      - peval (pint (pmul [0, 1] (prof (ball_slab c r)))) c)
   = 0"
  by (simp add: ball_slab_def pint_def pscale_def power2_eq_square power4_eq_xxxx field_simps)

lemma capsule_volume:
  assumes "0 < r" "2 * r \<le> L"
  shows "Volume (capsule L r) = pi * r\<^sup>2 * (L - 2 * r) + 4 / 3 * pi * r ^ 3"
proof -
  have c: "0 \<le> L / 2 - r" using assms by simp
  have "Volume (capsule L r) = pi * (r\<^sup>2 * (2 * (L / 2 - r)) + 4 / 3 * r ^ 3)"
    by (simp only: Volume_def integrate_integ capsule_slabs capsule_integ [OF assms(1) c]
        capsule_volume_terms)
  also have "\<dots> = pi * r\<^sup>2 * (L - 2 * r) + 4 / 3 * pi * r ^ 3"
    by (simp add: algebra_simps)
  finally show ?thesis .
qed

lemma capsule_first_moment:
  assumes "0 < r" "2 * r \<le> L"
  shows "first_moment (capsule L r) = 0"
proof -
  have c: "0 \<le> L / 2 - r" using assms by simp
  have "first_moment (capsule L r) = pi * 0"
    by (simp only: first_moment_def integrate_integ capsule_slabs capsule_integ [OF assms(1) c]
        capsule_moment_terms)
  then show ?thesis by simp
qed

text \<open>With the level in the straight part, the filled region is the lower half ball
  and a cylinder up to the level.\<close>

lemma capsule_straight_terms:
  "(peval (pint (prof (ball_slab (- c) r))) (- c) - peval (pint (prof (ball_slab (- c) r))) (- c - r))
   + (peval (pint [r\<^sup>2]) h - peval (pint [r\<^sup>2]) (- c))
   = 2 / 3 * r ^ 3 + r\<^sup>2 * (h + c)"
  by (simp add: ball_slab_def pint_def pscale_def power2_eq_square power3_eq_cube field_simps)

lemma capsule_straight_volume:
  assumes "0 < r" "2 * r \<le> L" "- (L / 2 - r) \<le> h" "h \<le> L / 2 - r"
  shows "fst (capsule_values L r h) = 2 / 3 * pi * r ^ 3 + pi * r\<^sup>2 * (h + (L / 2 - r))"
proof -
  let ?c = "L / 2 - r"
  let ?P = "\<lambda>q x. peval (pint q) x"
  let ?F = "clip h (h + 10 * L) ?P"
  have c: "0 \<le> ?c" using assms by simp
  have m: "min (- ?c) h = - ?c" "min (- ?c - r) h = - ?c - r" "min ?c h = h" "min (?c + r) h = h"
    "max (- ?c) (h + 10 * L) = h + 10 * L" "max (- ?c - r) (h + 10 * L) = h + 10 * L"
    "max ?c (h + 10 * L) = h + 10 * L" "max (?c + r) (h + 10 * L) = h + 10 * L"
    using assms by (simp_all add: min_absorb1 min_absorb2 max_absorb2)
  have "fst (capsule_values L r h) = pi * integ ?F (capsule L r)"
    by (simp only: capsule_values_eq mass_properties_def fst_conv Volume_def integrate_integ
        capsule_cut_integ [OF assms(1,2)])
  also have "\<dots>
      = pi * ((?F (prof (ball_slab (- ?c) r)) (- ?c) - ?F (prof (ball_slab (- ?c) r)) (- ?c - r))
         + (?F [r\<^sup>2] ?c - ?F [r\<^sup>2] (- ?c))
         + (?F (prof (ball_slab ?c r)) (?c + r) - ?F (prof (ball_slab ?c r)) ?c))"
    by (simp only: capsule_slabs capsule_integ [OF assms(1) c])
  also have "\<dots> = pi * ((?P (prof (ball_slab (- ?c) r)) (- ?c) - ?P (prof (ball_slab (- ?c) r)) (- ?c - r))
         + (?P [r\<^sup>2] h - ?P [r\<^sup>2] (- ?c)))"
    unfolding clip_def m by simp
  also have "\<dots> = pi * (2 / 3 * r ^ 3 + r\<^sup>2 * (h + ?c))"
    by (simp only: capsule_straight_terms)
  finally show ?thesis
    by (simp add: algebra_simps)
qed

section \<open>The sampled levels\<close>

lemma linspace_eq:
  assumes "1 < num"
  shows "linspace start stop num
       = map (\<lambda>i. start + real i * ((stop - start) / real (num - 1))) [0..<num]"
proof -
  obtain m where m: "num = Suc m" "0 < m"
    using assms by (cases num) auto
  have "linspace start stop num
      = map (\<lambda>i. start + real i * ((stop - start) / real m)) [0..<m] @ [stop]"
    using m by (simp add: linspace_def Let_def comp_def map_butlast [symmetric] add.commute)
  also have "stop = start + real m * ((stop - start) / real m)"
    using m by simp
  finally show ?thesis
    using m by simp
qed

lemma linspace_25:
  "linspace a b 25 = map (\<lambda>i. a + real i * ((b - a) / 24)) [0..<25]"
  by (simp add: linspace_eq)

section \<open>The evaluators and the kernel's refusals\<close>

lemma cylinder_rod: "0 < H \<Longrightarrow> 0 < r \<Longrightarrow> cylinder H r = Inr (rod H r)"
  by (simp add: cylinder_def rod_def)

lemma evaluate_sphere_returns:
  assumes "0 < R"
  shows "evaluate_sphere_parameters R h = Inr (sphere_values R h)"
proof -
  have "cylinder (10 * R) R = Inr (rod (10 * R) R)"
    using assms by (intro cylinder_rod) simp_all
  then show ?thesis
    by (simp only: evaluate_sphere_parameters_def sphere_values_def mass_properties_def Let_def
        sum.case)
qed

lemma evaluate_sphere_raises:
  assumes "R \<le> 0"
  shows "evaluate_sphere_parameters R h = Inl KernelError"
  using assms by (simp add: evaluate_sphere_parameters_def cylinder_def)

lemma evaluate_cylinder_returns:
  assumes "0 < r" "2 * r < L"
  shows "evaluate_cylinder_with_caps L r h = Inr (capsule_values L r h)"
proof -
  have "cylinder (L - 2 * r) r = Inr (rod (L - 2 * r) r)"
    using assms by (intro cylinder_rod) simp_all
  moreover have "cylinder (10 * L) r = Inr (rod (10 * L) r)"
    using assms by (intro cylinder_rod) simp_all
  ultimately show ?thesis
    by (simp only: evaluate_cylinder_with_caps_def capsule_values_def capsule_def
        mass_properties_def Let_def sum.case)
qed

lemma evaluate_cylinder_raises:
  assumes "r \<le> 0 \<or> L \<le> 2 * r"
  shows "evaluate_cylinder_with_caps L r h = Inl KernelError"
  using assms by (auto simp: evaluate_cylinder_with_caps_def cylinder_def)

section \<open>The evaluators against the filled region of the spec\<close>

lemma clip_regions:
  assumes "\<forall>p\<in>set s. lo p \<le> hi p"
  shows "integ (clip a b F) s = integ F (filled_region s a) + integ F (beyond_drill s b)"
  using assms
proof (induction s)
  case Nil
  then show ?case by (simp add: filled_region_def beyond_drill_def)
next
  case (Cons p s)
  have f: "filled_region (p # s) a
      = (if lo p < a then [p\<lparr>hi := min (hi p) a\<rparr>] else []) @ filled_region s a"
    by (simp add: filled_region_def)
  have b: "beyond_drill (p # s) b
      = (if b < hi p then [p\<lparr>lo := max (lo p) b\<rparr>] else []) @ beyond_drill s b"
    by (simp add: beyond_drill_def)
  have ord: "lo p \<le> hi p" using Cons.prems by simp
  have 1: "F (prof p) (min (hi p) a) - F (prof p) (min (lo p) a)
      = integ F (if lo p < a then [p\<lparr>hi := min (hi p) a\<rparr>] else [])"
  proof (cases "lo p < a")
    case True
    then show ?thesis by (simp add: min_absorb1)
  next
    case False
    then have "min (hi p) a = a" "min (lo p) a = a"
      using ord by (simp_all add: min_absorb2)
    with False show ?thesis by simp
  qed
  have 2: "F (prof p) (max (hi p) b) - F (prof p) (max (lo p) b)
      = integ F (if b < hi p then [p\<lparr>lo := max (lo p) b\<rparr>] else [])"
  proof (cases "b < hi p")
    case True
    then show ?thesis by (simp add: max_absorb1)
  next
    case False
    then have "max (hi p) b = b" "max (lo p) b = b"
      using ord by (simp_all add: max_absorb2)
    with False show ?thesis by simp
  qed
  have "integ (clip a b F) (p # s)
      = (F (prof p) (min (hi p) a) - F (prof p) (min (lo p) a))
        + (F (prof p) (max (hi p) b) - F (prof p) (max (lo p) b))
        + integ (clip a b F) s"
    by (simp add: clip_def)
  also have "\<dots> = integ F (filled_region (p # s) a) + integ F (beyond_drill (p # s) b)"
    unfolding 1 2 f b using Cons by simp
  finally show ?case .
qed

lemma sphere_is_shape: "sphere R = sphere_shape R"
  by (simp add: sphere_def sphere_shape_def)

lemma sphere_values_regions:
  assumes "0 \<le> R"
  shows "sphere_values R h
       = mass_properties (filled_region (sphere_shape R) h @ beyond_drill (sphere_shape R) (h + 10 * R))"
  unfolding sphere_values_eq
proof (rule mass_properties_cong)
  fix F
  have "integ (clip h (h + 10 * R) F) (sphere_shape R)
      = integ F (filled_region (sphere_shape R) h) + integ F (beyond_drill (sphere_shape R) (h + 10 * R))"
    using assms by (intro clip_regions) (simp add: sphere_shape_def)
  moreover have "integ F (cut_solid (sphere R) (translate (10 * R / 2 + h) (rod (10 * R) R)))
      = integ (clip h (h + 10 * R) F) (sphere_shape R)"
    using sphere_measure [OF assms, of F h] by (simp only: sphere_is_shape)
  ultimately show "integ F (cut_solid (sphere R) (translate (10 * R / 2 + h) (rod (10 * R) R)))
      = integ F (filled_region (sphere_shape R) h @ beyond_drill (sphere_shape R) (h + 10 * R))"
    by (simp only: integ_append)
qed

lemma capsule_is_shape:
  assumes "0 < r" "2 * r \<le> L"
  shows "integ G (capsule L r) = integ G (capped_cylinder_shape L r)"
proof -
  have c: "0 \<le> L / 2 - r" using assms by simp
  have "integ G (capsule L r)
      = (G (prof (ball_slab (- (L / 2 - r)) r)) (- (L / 2 - r))
           - G (prof (ball_slab (- (L / 2 - r)) r)) (- (L / 2 - r) - r))
        + (G [r\<^sup>2] (L / 2 - r) - G [r\<^sup>2] (- (L / 2 - r)))
        + (G (prof (ball_slab (L / 2 - r) r)) (L / 2 - r + r)
           - G (prof (ball_slab (L / 2 - r) r)) (L / 2 - r))"
    by (simp only: capsule_slabs capsule_integ [OF assms(1) c])
  also have "\<dots> = integ G (capped_cylinder_shape L r)"
    by (simp add: capped_cylinder_shape_def Let_def ball_slab_def del: pshift.simps)
  finally show ?thesis .
qed

lemma capsule_values_regions:
  assumes "0 < r" "2 * r \<le> L"
  shows "capsule_values L r h
       = mass_properties (filled_region (capped_cylinder_shape L r) h
                          @ beyond_drill (capped_cylinder_shape L r) (h + 10 * L))"
  unfolding capsule_values_eq
proof (rule mass_properties_cong)
  fix F
  have "integ (clip h (h + 10 * L) F) (capped_cylinder_shape L r)
      = integ F (filled_region (capped_cylinder_shape L r) h)
        + integ F (beyond_drill (capped_cylinder_shape L r) (h + 10 * L))"
    using assms by (intro clip_regions) (simp add: capped_cylinder_shape_def Let_def)
  then show "integ F (cut_solid (capsule L r) (translate (10 * L / 2 + h) (rod (10 * L) r)))
      = integ F (filled_region (capped_cylinder_shape L r) h
                 @ beyond_drill (capped_cylinder_shape L r) (h + 10 * L))"
    by (simp only: capsule_cut_integ [OF assms] capsule_is_shape [OF assms] integ_append)
qed

section \<open>Central moments and regions\<close>

lemma mass_properties_central_moment:
  assumes "mass_properties s = (V, g, I)"
  shows "I - V * g\<^sup>2 = central_moment s"
proof -
  have "g = centroid s"
    using assms by (auto simp: mass_properties_def centerOfMass_def centroid_def)
  moreover have "I - V * g\<^sup>2 = second_moment g s"
    using mass_properties_central [of s] assms by simp
  ultimately show ?thesis
    by (simp add: central_moment_def)
qed

lemma mass_properties_region: "mass_properties s = region_properties s"
proof -
  have "mass_properties s = (Volume s, vz (centerOfMass s), second_moment 0 s)"
    by (simp only: mass_properties_def inertia_about_origin)
  moreover have "vz (centerOfMass s) = centroid s"
    by (simp add: centerOfMass_def centroid_def)
  ultimately show ?thesis
    by (simp only: region_properties_def)
qed

lemma central_moment_nonneg: "\<forall>p\<in>set s. wf_slab p \<Longrightarrow> 0 \<le> central_moment s"
  unfolding central_moment_def by (rule second_moment_nonneg)

lemma central_moment_Nil: "central_moment [] = 0"
  by (simp add: central_moment_def second_moment_def integrate_def)

lemma wf_filled_region:
  assumes "\<forall>p\<in>set s. wf_slab p"
  shows "\<forall>p\<in>set (filled_region s h). wf_slab p"
  using assms by (auto simp: filled_region_def wf_slab_def)

lemma wf_sphere_shape: "0 \<le> R \<Longrightarrow> \<forall>p\<in>set (sphere_shape R). wf_slab p"
  using wf_sphere [of R] by (simp add: sphere_is_shape)

lemma wf_capped_cylinder_shape:
  assumes "0 < r" "2 * r \<le> L"
  shows "\<forall>p\<in>set (capped_cylinder_shape L r). wf_slab p"
proof -
  let ?c = "L / 2 - r"
  have "wf_slab ((ball_slab (- ?c) r)\<lparr>hi := - ?c\<rparr>)"
    using assms by (intro wf_sub [OF wf_ball [of r "- ?c"]]) simp_all
  moreover have "wf_slab (cyl_slab ?c r)"
    using assms by (intro wf_cyl) simp
  moreover have "wf_slab ((ball_slab ?c r)\<lparr>lo := ?c\<rparr>)"
    using assms by (intro wf_sub [OF wf_ball [of r ?c]]) simp_all
  ultimately show ?thesis
    by (simp add: capped_cylinder_shape_def Let_def ball_slab_def cyl_slab_def del: pshift.simps)
qed

lemma sphere_nothing_beyond:
  assumes "R \<le> t"
  shows "beyond_drill (sphere_shape R) t = []"
  using assms by (simp add: beyond_drill_def sphere_shape_def)

lemma capsule_nothing_beyond:
  assumes "0 < r" "2 * r \<le> L" "L / 2 \<le> t"
  shows "beyond_drill (capped_cylinder_shape L r) t = []"
  using assms by (simp add: beyond_drill_def capped_cylinder_shape_def Let_def del: pshift.simps)

lemma sphere_nothing_filled:
  assumes "h \<le> - R"
  shows "filled_region (sphere_shape R) h = []"
  using assms by (simp add: filled_region_def sphere_shape_def)

lemma capsule_nothing_filled:
  assumes "0 < r" "2 * r \<le> L" "h \<le> - L / 2"
  shows "filled_region (capped_cylinder_shape L r) h = []"
  using assms by (simp add: filled_region_def capped_cylinder_shape_def Let_def del: pshift.simps)

lemma sphere_values_filled:
  assumes "0 \<le> R" "- 9 * R \<le> h"
  shows "sphere_values R h = mass_properties (filled_region (sphere_shape R) h)"
  using sphere_values_regions [OF assms(1), of h] sphere_nothing_beyond [of R "h + 10 * R"] assms
  by simp

lemma capsule_values_filled:
  assumes "0 < r" "2 * r \<le> L" "- L / 2 - 9 * L \<le> h"
  shows "capsule_values L r h = mass_properties (filled_region (capped_cylinder_shape L r) h)"
  using capsule_values_regions [OF assms(1,2), of h]
    capsule_nothing_beyond [OF assms(1,2), of "h + 10 * L"] assms
  by simp

lemma sphere_full_values:
  assumes "0 < R"
  shows "mass_properties (sphere R) = (4 / 3 * pi * R ^ 3, 0, 8 / 15 * pi * R ^ 5)"
proof -
  have e: "mass_properties (sphere R) = sphere_values R R"
    using sphere_full [of R R] assms by simp
  have "fst (sphere_values R R) = 4 / 3 * pi * R ^ 3"
    by (rule sphere_top_volume [OF assms])
  moreover have "fst (snd (sphere_values R R)) = 0"
    using sphere_centroid [of R R] assms by simp
  moreover have "snd (snd (sphere_values R R)) = 8 / 15 * pi * R ^ 5"
    by (rule sphere_full_inertia [OF assms])
  ultimately show ?thesis
    unfolding e by (metis prod.collapse)
qed

lemma capsule_second_moment:
  assumes "0 < r" "2 * r \<le> L"
  shows "second_moment a (capsule L r) = second_moment a (capped_cylinder_shape L r)"
  by (simp only: second_moment_def integrate_integ capsule_is_shape [OF assms])

lemma capsule_full_values:
  assumes "0 < r" "2 * r \<le> L"
  shows "mass_properties (capsule L r)
       = (pi * r\<^sup>2 * (L - 2 * r) + 4 / 3 * pi * r ^ 3, 0,
          second_moment 0 (capped_cylinder_shape L r))"
  using capsule_volume [OF assms] capsule_first_moment [OF assms]
    inertia_about_origin [of "capsule L r"] capsule_second_moment [OF assms, of 0]
  by (simp add: mass_properties_def centerOfMass_def)

text \<open>The lower half of the unit ball has its centroid \<open>3/8\<close> below the centre and
  the central moment \<open>83/480 \<pi>\<close>, that is \<open>83/320 M R\<^sup>2\<close> with the mass
  \<open>M = 2/3 \<pi> R\<^sup>3\<close>.\<close>

lemma hemisphere_region: "filled_region (sphere_shape 1) 0 = [\<lparr>lo = - 1, hi = 0, prof = [1, 0, - 1]\<rparr>]"
  by (simp add: filled_region_def sphere_shape_def)

lemma hemisphere_centroid: "centroid (filled_region (sphere_shape 1) 0) = - 3 / 8"
  unfolding hemisphere_region
  by (simp add: centroid_def Volume_def first_moment_def integrate_def integral_def pint_def
      pscale_def power2_eq_square power3_eq_cube power4_eq_xxxx field_simps)

lemma hemisphere_central_moment:
  "central_moment (filled_region (sphere_shape 1) 0) = 83 / 480 * pi"
  unfolding central_moment_def hemisphere_centroid unfolding hemisphere_region
  by (simp add: second_moment_def integrate_def integral_def pint_def
      pscale_def power2_eq_square power3_eq_cube power4_eq_xxxx eval_nat_numeral field_simps)

section \<open>Below the valid range\<close>

lemma sphere_band_volume:
  assumes "0 \<le> R" "- 11 * R \<le> h" "h \<le> - 9 * R"
  shows "fst (sphere_values R h) = pi * (h + 9 * R)\<^sup>2 * (h + 12 * R) / 3"
proof -
  have "fst (sphere_values R h)
      = pi * (clip h (h + 10 * R) (\<lambda>q x. peval (pint q) x) [R\<^sup>2, 0, - 1] R
            - clip h (h + 10 * R) (\<lambda>q x. peval (pint q) x) [R\<^sup>2, 0, - 1] (- R))"
    by (simp only: sphere_values_eq mass_properties_def Volume_def integrate_integ
        sphere_integ [OF assms(1)] fst_conv)
  also have "\<dots> = pi * (peval (pint [R\<^sup>2, 0, - 1]) R - peval (pint [R\<^sup>2, 0, - 1]) (h + 10 * R))"
  proof -
    have "min R h = h" "min (- R) h = h" "max R (h + 10 * R) = R"
      "max (- R) (h + 10 * R) = h + 10 * R"
      using assms by (simp_all add: min_absorb2 max_absorb1 max_absorb2)
    then show ?thesis
      unfolding clip_def by simp
  qed
  also have "\<dots> = pi * (h + 9 * R)\<^sup>2 * (h + 12 * R) / 3"
    by (simp add: pint_def power2_eq_square power3_eq_cube field_simps)
  finally show ?thesis .
qed

lemma ball_top_integral:
  "integral (pshift c [r\<^sup>2, 0, - 1]) a (c + r) = (c + r - a)\<^sup>2 * (2 * r + (a - c)) / 3"
  by (simp add: integral_def pint_def pscale_def power2_eq_square power3_eq_cube field_simps)

lemma Volume_append: "Volume (a @ b) = Volume a + Volume b"
  by (simp add: Volume_def integrate_def algebra_simps)

lemma wf_beyond_drill:
  assumes "\<forall>p\<in>set s. wf_slab p"
  shows "\<forall>p\<in>set (beyond_drill s t). wf_slab p"
  using assms by (auto simp: beyond_drill_def wf_slab_def)

lemma beyond_drill_append: "beyond_drill (a @ b) t = beyond_drill a t @ beyond_drill b t"
  by (simp add: beyond_drill_def)

lemma capsule_left_over:
  assumes "0 < r" "2 * r \<le> L" "t < L / 2"
  shows "0 < Volume (beyond_drill (capped_cylinder_shape L r) t)"
proof -
  let ?c = "L / 2 - r"
  let ?low = "[\<lparr>lo = - L / 2, hi = - ?c, prof = pshift (- ?c) [r\<^sup>2, 0, - 1]\<rparr>,
       \<lparr>lo = - ?c, hi = ?c, prof = [r\<^sup>2]\<rparr>]"
  let ?top = "\<lparr>lo = ?c, hi = L / 2, prof = pshift ?c [r\<^sup>2, 0, - 1]\<rparr>"
  have shape: "capped_cylinder_shape L r = ?low @ [?top]"
    by (simp add: capped_cylinder_shape_def Let_def del: pshift.simps)
  have "\<forall>p\<in>set ?low. wf_slab p"
    using wf_capped_cylinder_shape [OF assms(1,2)] unfolding shape by simp
  then have low: "0 \<le> Volume (beyond_drill ?low t)"
    by (intro Volume_nonneg wf_beyond_drill)
  have "L / 2 = ?c + r" by simp
  then have "Volume (beyond_drill [?top] t)
      = pi * integral (pshift ?c [r\<^sup>2, 0, - 1]) (max ?c t) (?c + r)"
    using assms(3) by (simp add: beyond_drill_def Volume_def integrate_def del: pshift.simps)
  also have "\<dots> = pi * ((?c + r - max ?c t)\<^sup>2 * (2 * r + (max ?c t - ?c)) / 3)"
    by (simp only: ball_top_integral)
  also have "0 < \<dots>"
    using assms by (intro mult_pos_pos divide_pos_pos) (auto simp: max_def)
  finally have "0 < Volume (beyond_drill [?top] t)" .
  with low show ?thesis
    unfolding shape beyond_drill_append Volume_append by simp
qed

lemma capsule_volume_below_range:
  assumes "0 < r" "2 * r \<le> L" "h < - L / 2 - 9 * L"
  shows "0 < fst (capsule_values L r h)"
proof -
  have "h \<le> - L / 2" using assms by simp
  then have "filled_region (capped_cylinder_shape L r) h = []"
    by (intro capsule_nothing_filled assms)
  then have "fst (capsule_values L r h) = Volume (beyond_drill (capped_cylinder_shape L r) (h + 10 * L))"
    by (simp add: capsule_values_regions [OF assms(1,2)] mass_properties_def)
  also have "0 < \<dots>"
    using assms by (intro capsule_left_over) simp_all
  finally show ?thesis .
qed

lemma sphere_volume_below_range:
  assumes "0 < R" "h < - 9 * R"
  shows "0 < fst (sphere_values R h)"
proof (cases "h \<le> - 11 * R")
  case True
  then have "sphere_values R h = mass_properties (sphere R)"
    using sphere_full [of R h] assms by simp
  then show ?thesis
    using assms by (simp add: sphere_full_values)
next
  case False
  then have "fst (sphere_values R h) = pi * (h + 9 * R)\<^sup>2 * (h + 12 * R) / 3"
    using assms by (intro sphere_band_volume) simp_all
  also have "0 < \<dots>"
    using assms False by (intro mult_pos_pos divide_pos_pos) auto
  finally show ?thesis .
qed

section \<open>The sampling loops\<close>

lemma sphere_rows_returns:
  assumes "0 < R"
  shows "sphere_rows R hs acc
       = Inr (acc @ map (\<lambda>h. case projr (evaluate_sphere_parameters R h) of
                                 (v, c, j) \<Rightarrow> [h, v, c, j]) hs)"
proof (induction hs arbitrary: acc)
  case Nil
  show ?case by simp
next
  case (Cons h hs)
  obtain v c j where t: "sphere_values R h = (v, c, j)"
    by (cases "sphere_values R h")
  show ?case
    by (simp add: evaluate_sphere_returns [OF assms] t Cons.IH)
qed

lemma sphere_rows_raises:
  assumes "R \<le> 0" "hs \<noteq> []"
  shows "sphere_rows R hs acc = Inl KernelError"
  using assms by (cases hs) (simp_all add: evaluate_sphere_raises)

lemma cylinder_rows_returns:
  assumes "0 < r" "2 * r < L"
  shows "cylinder_rows L r hs acc
       = Inr (acc @ map (\<lambda>h. case projr (evaluate_cylinder_with_caps L r h) of
                                 (v, c, j) \<Rightarrow> [h, v, c, j]) hs)"
proof (induction hs arbitrary: acc)
  case Nil
  show ?case by simp
next
  case (Cons h hs)
  obtain v c j where t: "capsule_values L r h = (v, c, j)"
    by (cases "capsule_values L r h")
  show ?case
    by (simp add: evaluate_cylinder_returns [OF assms] t Cons.IH)
qed

lemma cylinder_rows_raises:
  assumes "r \<le> 0 \<or> L \<le> 2 * r" "hs \<noteq> []"
  shows "cylinder_rows L r hs acc = Inl KernelError"
  using assms(2) evaluate_cylinder_raises [OF assms(1)] by (cases hs) simp_all

lemma linspace_not_Nil: "linspace a b 25 \<noteq> []"
  by (simp add: linspace_25 upt_rec)

lemma sphere_datapoints_returns:
  assumes "0 < total_height g"
  shows "sphere_datapoints g
       = Inr (map (\<lambda>i. let R = total_height g / 2; h = - R + real i * ((R - (- R)) / 24)
                        in case projr (evaluate_sphere_parameters R h) of
                             (v, c, j) \<Rightarrow> [h, v, c, j]) [0..<25])"
proof -
  have "0 < total_height g / 2" using assms by simp
  from sphere_rows_returns [OF this] show ?thesis
    unfolding sphere_datapoints_def linspace_25 Let_def by (simp add: comp_def)
qed

lemma sphere_datapoints_raises:
  assumes "total_height g \<le> 0"
  shows "sphere_datapoints g = Inl KernelError"
proof -
  have "total_height g / 2 \<le> 0" using assms by simp
  from sphere_rows_raises [OF this linspace_not_Nil] show ?thesis
    unfolding sphere_datapoints_def Let_def by simp
qed

lemma cylinder_datapoints_returns:
  assumes "0 < radius_fn g 0" "2 * radius_fn g 0 < total_height g"
  shows "cylinder_datapoints g
       = Inr (map (\<lambda>i. let L = total_height g; h = - L / 2 + real i * ((L / 2 - (- L / 2)) / 24)
                        in case projr (evaluate_cylinder_with_caps L (radius_fn g 0) h) of
                             (v, c, j) \<Rightarrow> [h, v, c, j]) [0..<25])"
  using cylinder_rows_returns [OF assms]
  unfolding cylinder_datapoints_def linspace_25 Let_def by (simp add: comp_def)

lemma cylinder_datapoints_raises:
  assumes "radius_fn g 0 \<le> 0 \<or> total_height g \<le> 2 * radius_fn g 0"
  shows "cylinder_datapoints g = Inl KernelError"
  using cylinder_rows_raises [OF assms linspace_not_Nil]
  unfolding cylinder_datapoints_def Let_def by simp

lemma export_spheres_returns:
  assumes "\<forall>(name, g)\<in>set items. 0 < total_height g"
  shows "export_spheres items files
       = (files @ map (\<lambda>(name, g). export_expected_parameters name (projr (sphere_datapoints g))) items,
          None)"
  using assms
proof (induction items arbitrary: files)
  case Nil
  show ?case by simp
next
  case (Cons e items)
  obtain name g where e: "e = (name, g)" by (cases e)
  with Cons.prems have g: "0 < total_height g" by simp
  show ?case
    using Cons.prems by (simp add: e sphere_datapoints_returns [OF g] Cons.IH)
qed

lemma export_cylinders_returns:
  assumes "\<forall>(name, g)\<in>set items. 0 < radius_fn g 0 \<and> 2 * radius_fn g 0 < total_height g"
  shows "export_cylinders items files
       = (files @ map (\<lambda>(name, g). export_expected_parameters name (projr (cylinder_datapoints g))) items,
          None)"
  using assms
proof (induction items arbitrary: files)
  case Nil
  show ?case by simp
next
  case (Cons e items)
  obtain name g where e: "e = (name, g)" by (cases e)
  with Cons.prems have g: "0 < radius_fn g 0" "2 * radius_fn g 0 < total_height g" by simp_all
  show ?case
    using Cons.prems by (simp add: e cylinder_datapoints_returns [OF g] Cons.IH)
qed

section \<open>Reading the returned triple\<close>

lemma returned_triple: "\<exists>g I. t = (fst t, g, I)" for t :: "real \<times> real \<times> real"
  by (metis prod.collapse)

lemma returned_central:
  assumes "\<forall>p\<in>set s. wf_slab p"
  shows "\<exists>V g I. mass_properties s = (V, g, I) \<and> I - V * g\<^sup>2 = central_moment s
            \<and> 0 \<le> I - V * g\<^sup>2"
proof -
  obtain V g I where m: "mass_properties s = (V, g, I)"
    by (cases "mass_properties s")
  from mass_properties_central_moment [OF m] central_moment_nonneg [OF assms] m
  show ?thesis by simp
qed

text \<open>The full capped cylinder of length 4 and radius 1 has the second moment
  \<open>121/30 \<pi>\<close> about a horizontal axis through its centre: \<open>7/6 \<pi>\<close> from the
  straight part and \<open>43/30 \<pi>\<close> from each half ball.\<close>

lemma capsule_4_1_inertia: "second_moment 0 (capped_cylinder_shape 4 1) = 121 / 30 * pi"
  by (simp add: second_moment_def integrate_def integral_def capped_cylinder_shape_def Let_def
      pint_def pscale_def power2_eq_square power3_eq_cube power4_eq_xxxx eval_nat_numeral
      field_simps)

section \<open>The files written\<close>

lemma sphere_file:
  assumes "0 < total_height g"
  shows "export_expected_parameters name (projr (sphere_datapoints g))
       = \<lparr>file_name = name @ ''_expected.csv'',
          rows = map Text [''level_height'', ''volume'', ''center_of_mass'', ''inertia'']
            # map (\<lambda>i. let R = total_height g / 2; h = - R + real i * ((R - (- R)) / 24)
                        in case projr (evaluate_sphere_parameters R h) of
                             (v, c, j) \<Rightarrow> map Number [h, v, c, j]) [0..<25]\<rparr>"
  unfolding sphere_datapoints_returns [OF assms] export_expected_parameters_def Let_def
  by (auto simp: comp_def split: prod.splits)

lemma cylinder_file:
  assumes "0 < radius_fn g 0" "2 * radius_fn g 0 < total_height g"
  shows "export_expected_parameters name (projr (cylinder_datapoints g))
       = \<lparr>file_name = name @ ''_expected.csv'',
          rows = map Text [''level_height'', ''volume'', ''center_of_mass'', ''inertia'']
            # map (\<lambda>i. let L = total_height g; h = - L / 2 + real i * ((L / 2 - (- L / 2)) / 24)
                        in case projr (evaluate_cylinder_with_caps L (radius_fn g 0) h) of
                             (v, c, j) \<Rightarrow> map Number [h, v, c, j]) [0..<25]\<rparr>"
  unfolding cylinder_datapoints_returns [OF assms] export_expected_parameters_def Let_def
  by (auto simp: comp_def split: prod.splits)

section \<open>The claims\<close>

text \<open>
  Throughout, a sphere is valid when its radius \<open>R\<close> is positive, and a capped
  cylinder when its radius \<open>r\<close> is positive and its total length \<open>L\<close> is more than
  \<open>2 r\<close>: at \<open>L = 2 r\<close> the straight part has no height, the kernel refuses it, and
  \<open>evaluate_cylinder_with_caps\<close> raises at every level
  (\<open>evaluate_cylinder_raises\<close>).  For a valid shape the evaluators return the triple
  (volume, centre of mass along z, inertia about the origin).
\<close>

text \<open>C1: for a sphere of radius \<open>R\<close> about the origin and a level \<open>h\<close> between
  \<open>- R\<close> and \<open>R\<close>, the evaluator returns, and the volume it returns is the
  spherical-cap formula \<open>\<pi> ch\<^sup>2 (3 R - ch) / 3\<close> with cap height \<open>ch = h + R\<close>.\<close>

theorem C1_sphere_cap_volume:
  assumes "0 < R" "- R \<le> h" "h \<le> R"
  shows "\<exists>g I. evaluate_sphere_parameters R h
                 = Inr (pi * (h + R)\<^sup>2 * (3 * R - (h + R)) / 3, g, I)"
proof -
  have "fst (sphere_values R h) = pi * (h + R)\<^sup>2 * (3 * R - (h + R)) / 3"
    using sphere_volume [of R h] assms by simp
  with returned_triple [of "sphere_values R h"] show ?thesis
    by (simp add: evaluate_sphere_returns [OF assms(1)])
qed

theorem C1_sphere_cap_volume_witness:
  "(0::real) < 1 \<and> - 1 \<le> (0::real) \<and> (0::real) \<le> 1 \<and>
   (\<exists>g I. evaluate_sphere_parameters 1 0 = Inr (pi * (0 + 1)\<^sup>2 * (3 * 1 - (0 + 1)) / 3, g, I))"
  using C1_sphere_cap_volume [of 1 0] by simp

text \<open>C2: for every valid shape and every level the evaluator returns a triple whose
  inertia minus volume times the square of the centre of mass is not negative.  For a
  level that is not lower than \<open>- 9 R\<close> (sphere) or \<open>- L/2 - 9 L\<close> (capped cylinder)
  this difference is the central moment of inertia of the filled region, the part of
  the tank at or below the level as the spec describes it.  For a level of \<open>- 11 R\<close>
  or lower it is not: the drill, which starts at the level and is \<open>10 R\<close> long, ends
  below the sphere and cuts nothing, the evaluator returns the values of the whole
  ball, whose central moment is \<open>8/15 \<pi> R\<^sup>5\<close>, while the filled region is empty and
  has the central moment 0.\<close>

theorem C2_parallel_axis:
  assumes "0 < R" "0 < r" "2 * r < L"
  shows "(\<exists>V g I. evaluate_sphere_parameters R h = Inr (V, g, I) \<and> 0 \<le> I - V * g\<^sup>2)
       \<and> (\<exists>V g I. evaluate_cylinder_with_caps L r k = Inr (V, g, I) \<and> 0 \<le> I - V * g\<^sup>2)
       \<and> (- 9 * R \<le> h \<longrightarrow>
            (\<exists>V g I. evaluate_sphere_parameters R h = Inr (V, g, I)
               \<and> I - V * g\<^sup>2 = central_moment (filled_region (sphere_shape R) h)))
       \<and> (- L / 2 - 9 * L \<le> k \<longrightarrow>
            (\<exists>V g I. evaluate_cylinder_with_caps L r k = Inr (V, g, I)
               \<and> I - V * g\<^sup>2 = central_moment (filled_region (capped_cylinder_shape L r) k)))
       \<and> (h \<le> - 11 * R \<longrightarrow>
            (\<exists>V g I. evaluate_sphere_parameters R h = Inr (V, g, I)
               \<and> I - V * g\<^sup>2 = 8 / 15 * pi * R ^ 5)
            \<and> central_moment (filled_region (sphere_shape R) h) = 0)"
proof (intro conjI impI)
  have R: "0 \<le> R" and L: "2 * r \<le> L" using assms by simp_all
  have "\<forall>p\<in>set (filled_region (sphere_shape R) h @ beyond_drill (sphere_shape R) (h + 10 * R)).
          wf_slab p"
    using wf_filled_region [OF wf_sphere_shape [OF R]] wf_beyond_drill [OF wf_sphere_shape [OF R]]
    by auto
  from returned_central [OF this]
  show "\<exists>V g I. evaluate_sphere_parameters R h = Inr (V, g, I) \<and> 0 \<le> I - V * g\<^sup>2"
    unfolding evaluate_sphere_returns [OF assms(1)] sphere_values_regions [OF R] by blast
  have "\<forall>p\<in>set (filled_region (capped_cylinder_shape L r) k
                  @ beyond_drill (capped_cylinder_shape L r) (k + 10 * L)). wf_slab p"
    using wf_filled_region [OF wf_capped_cylinder_shape [OF assms(2) L]]
      wf_beyond_drill [OF wf_capped_cylinder_shape [OF assms(2) L]]
    by auto
  from returned_central [OF this]
  show "\<exists>V g I. evaluate_cylinder_with_caps L r k = Inr (V, g, I) \<and> 0 \<le> I - V * g\<^sup>2"
    unfolding evaluate_cylinder_returns [OF assms(2,3)] capsule_values_regions [OF assms(2) L]
    by blast
  {
    assume "- 9 * R \<le> h"
    then have "sphere_values R h = mass_properties (filled_region (sphere_shape R) h)"
      by (intro sphere_values_filled R)
    with returned_central [OF wf_filled_region [OF wf_sphere_shape [OF R]], of h]
    show "\<exists>V g I. evaluate_sphere_parameters R h = Inr (V, g, I)
               \<and> I - V * g\<^sup>2 = central_moment (filled_region (sphere_shape R) h)"
      unfolding evaluate_sphere_returns [OF assms(1)] by auto
  }
  {
    assume "- L / 2 - 9 * L \<le> k"
    then have "capsule_values L r k = mass_properties (filled_region (capped_cylinder_shape L r) k)"
      by (intro capsule_values_filled assms(2) L)
    with returned_central [OF wf_filled_region [OF wf_capped_cylinder_shape [OF assms(2) L]], of k]
    show "\<exists>V g I. evaluate_cylinder_with_caps L r k = Inr (V, g, I)
               \<and> I - V * g\<^sup>2 = central_moment (filled_region (capped_cylinder_shape L r) k)"
      unfolding evaluate_cylinder_returns [OF assms(2,3)] by auto
  }
  {
    assume h: "h \<le> - 11 * R"
    then have "sphere_values R h = (4 / 3 * pi * R ^ 3, 0, 8 / 15 * pi * R ^ 5)"
      using sphere_full [of R h] sphere_full_values [OF assms(1)] R by simp
    then have "evaluate_sphere_parameters R h = Inr (4 / 3 * pi * R ^ 3, 0, 8 / 15 * pi * R ^ 5)"
      by (simp only: evaluate_sphere_returns [OF assms(1)])
    then show "\<exists>V g I. evaluate_sphere_parameters R h = Inr (V, g, I)
               \<and> I - V * g\<^sup>2 = 8 / 15 * pi * R ^ 5"
      by (intro exI [of _ "4 / 3 * pi * R ^ 3"] exI [of _ 0] exI [of _ "8 / 15 * pi * R ^ 5"])
        simp
    have "filled_region (sphere_shape R) h = []"
      using h assms(1) by (intro sphere_nothing_filled) simp
    then show "central_moment (filled_region (sphere_shape R) h) = 0"
      by (simp add: central_moment_Nil)
  }
qed

theorem C2_parallel_axis_witness:
  "(0::real) < 1 \<and> (0::real) < 1 \<and> 2 * 1 < (4::real)
   \<and> (\<exists>V g I. evaluate_sphere_parameters 1 (- 12) = Inr (V, g, I) \<and> 0 \<le> I - V * g\<^sup>2)
   \<and> (\<exists>V g I. evaluate_cylinder_with_caps 4 1 0 = Inr (V, g, I) \<and> 0 \<le> I - V * g\<^sup>2)
   \<and> - 4 / 2 - 9 * 4 \<le> (0::real)
   \<and> (\<exists>V g I. evaluate_cylinder_with_caps 4 1 0 = Inr (V, g, I)
               \<and> I - V * g\<^sup>2 = central_moment (filled_region (capped_cylinder_shape 4 1) 0))
   \<and> (- 12::real) \<le> - 11 * 1
   \<and> (\<exists>V g I. evaluate_sphere_parameters 1 (- 12) = Inr (V, g, I)
               \<and> I - V * g\<^sup>2 = 8 / 15 * pi * 1 ^ 5)
   \<and> central_moment (filled_region (sphere_shape 1) (- 12)) = 0
   \<and> - 9 * 1 \<le> (0::real)
   \<and> (\<exists>V g I. evaluate_sphere_parameters 1 0 = Inr (V, g, I)
               \<and> I - V * g\<^sup>2 = central_moment (filled_region (sphere_shape 1) 0))
   \<and> central_moment (filled_region (sphere_shape 1) 0) = 83 / 480 * pi"
proof -
  have valid: "(0::real) < 1" "2 * 1 < (4::real)"
    by simp_all
  have levels: "- 4 / 2 - 9 * 4 \<le> (0::real)" "(- 12::real) \<le> - 11 * 1" "- 9 * 1 \<le> (0::real)"
    by simp_all
  from C2_parallel_axis [OF valid(1) valid(1) valid(2), of "- 12" 0]
    C2_parallel_axis [OF valid(1) valid(1) valid(2), of 0 0]
    valid levels hemisphere_central_moment
  show ?thesis
    by blast
qed

text \<open>C3: for every valid shape and any two levels \<open>h1 \<le> h2\<close> within the valid range
  of the shape, the evaluator returns at both, and the volume returned at \<open>h1\<close> is at
  most the volume returned at \<open>h2\<close>.\<close>

theorem C3_volume_monotone:
  assumes "h1 \<le> h2" "k1 \<le> k2"
  shows "(0 < R \<and> - R \<le> h1 \<and> h2 \<le> R \<longrightarrow>
            (\<exists>V1 g1 I1 V2 g2 I2.
                evaluate_sphere_parameters R h1 = Inr (V1, g1, I1)
              \<and> evaluate_sphere_parameters R h2 = Inr (V2, g2, I2)
              \<and> V1 \<le> V2))
       \<and> (0 < r \<and> 2 * r < L \<and> - L / 2 \<le> k1 \<and> k2 \<le> L / 2 \<longrightarrow>
            (\<exists>V1 g1 I1 V2 g2 I2.
                evaluate_cylinder_with_caps L r k1 = Inr (V1, g1, I1)
              \<and> evaluate_cylinder_with_caps L r k2 = Inr (V2, g2, I2)
              \<and> V1 \<le> V2))"
proof (intro conjI impI)
  assume a: "0 < R \<and> - R \<le> h1 \<and> h2 \<le> R"
  have "Volume (cut_solid (sphere R) (translate (10 * R / 2 + h1) (rod (10 * R) R)))
      \<le> Volume (cut_solid (sphere R) (translate (10 * R / 2 + h2) (rod (10 * R) R)))"
    using a assms(1) wf_sphere [of R]
    by (intro cut_volume_mono) (auto simp: sphere_def)
  then have "fst (sphere_values R h1) \<le> fst (sphere_values R h2)"
    by (simp add: sphere_values_eq mass_properties_def)
  with returned_triple [of "sphere_values R h1"] returned_triple [of "sphere_values R h2"] a
  show "\<exists>V1 g1 I1 V2 g2 I2.
                evaluate_sphere_parameters R h1 = Inr (V1, g1, I1)
              \<and> evaluate_sphere_parameters R h2 = Inr (V2, g2, I2)
              \<and> V1 \<le> V2"
    by (simp add: evaluate_sphere_returns) metis
next
  assume a: "0 < r \<and> 2 * r < L \<and> - L / 2 \<le> k1 \<and> k2 \<le> L / 2"
  then have f: "\<forall>p\<in>set (capsule L r).
      wf_slab p \<and> (\<forall>z. peval (prof p) z \<le> r\<^sup>2) \<and> - L / 2 \<le> lo p \<and> hi p \<le> L / 2"
    by (intro capsule_facts) auto
  have "Volume (cut_solid (capsule L r) (translate (10 * L / 2 + k1) (rod (10 * L) r)))
      \<le> Volume (cut_solid (capsule L r) (translate (10 * L / 2 + k2) (rod (10 * L) r)))"
    using a assms(2) f
    by (intro cut_volume_mono) fastforce+
  then have "fst (capsule_values L r k1) \<le> fst (capsule_values L r k2)"
    by (simp add: capsule_values_eq mass_properties_def)
  with returned_triple [of "capsule_values L r k1"] returned_triple [of "capsule_values L r k2"] a
  show "\<exists>V1 g1 I1 V2 g2 I2.
                evaluate_cylinder_with_caps L r k1 = Inr (V1, g1, I1)
              \<and> evaluate_cylinder_with_caps L r k2 = Inr (V2, g2, I2)
              \<and> V1 \<le> V2"
    by (simp add: evaluate_cylinder_returns) metis
qed

theorem C3_volume_monotone_witness:
  "(0::real) \<le> 1 / 2 \<and> (0::real) \<le> 1 \<and>
   ((0::real) < 1 \<and> - 1 \<le> (0::real) \<and> 1 / 2 \<le> (1::real)) \<and>
   (\<exists>V1 g1 I1 V2 g2 I2.
                evaluate_sphere_parameters 1 0 = Inr (V1, g1, I1)
              \<and> evaluate_sphere_parameters 1 (1 / 2) = Inr (V2, g2, I2)
              \<and> V1 \<le> V2) \<and>
   ((0::real) < 1 \<and> 2 * 1 < (4::real) \<and> - 4 / 2 \<le> (0::real) \<and> (1::real) \<le> 4 / 2) \<and>
   (\<exists>V1 g1 I1 V2 g2 I2.
                evaluate_cylinder_with_caps 4 1 0 = Inr (V1, g1, I1)
              \<and> evaluate_cylinder_with_caps 4 1 1 = Inr (V2, g2, I2)
              \<and> V1 \<le> V2)"
  using C3_volume_monotone [of 0 "1 / 2" 0 1 1 1 4] by simp

text \<open>C4: at the bottom-most level the returned volume is 0 and at the top-most level
  it is the volume of the full shape, for the sphere (\<open>4/3 \<pi> R\<^sup>3\<close>) and for the
  capped cylinder (\<open>\<pi> r\<^sup>2 (L - 2 r) + 4/3 \<pi> r\<^sup>3\<close>).  For the capped cylinder every
  level \<open>h \<ge> L/2\<close> gives the full volume, the centroid 0 and the second moment of the
  full solid about the horizontal axis through the origin, and every level \<open>h\<close> with
  \<open>- L/2 - 9 L \<le> h \<le> - L/2\<close> makes all three properties zero.  Not every level
  \<open>h \<le> - L/2\<close> does: the drill starts at the level and is \<open>10 L\<close> long, so below
  \<open>- L/2 - 9 L\<close> it leaves a part of the solid above the level and the returned
  volume is positive, and at \<open>h \<le> - L/2 - 10 L\<close> it ends below the solid, nothing
  above the level is removed, and the evaluator returns the values of the full
  solid.\<close>

theorem C4_boundary_values:
  assumes "0 < R" "0 < r" "2 * r < L"
  shows "(\<exists>g I. evaluate_sphere_parameters R (- R) = Inr (0, g, I))
       \<and> (\<exists>g I. evaluate_sphere_parameters R R = Inr (4 / 3 * pi * R ^ 3, g, I))
       \<and> (\<exists>g I. evaluate_cylinder_with_caps L r (- L / 2) = Inr (0, g, I))
       \<and> (\<exists>g I. evaluate_cylinder_with_caps L r (L / 2)
                    = Inr (pi * r\<^sup>2 * (L - 2 * r) + 4 / 3 * pi * r ^ 3, g, I))
       \<and> (- L / 2 - 9 * L \<le> h \<and> h \<le> - L / 2 \<longrightarrow>
            evaluate_cylinder_with_caps L r h = Inr (0, 0, 0))
       \<and> (L / 2 \<le> h \<longrightarrow>
            evaluate_cylinder_with_caps L r h
              = Inr (pi * r\<^sup>2 * (L - 2 * r) + 4 / 3 * pi * r ^ 3, 0,
                     second_moment 0 (capped_cylinder_shape L r)))
       \<and> (h \<le> - L / 2 - 10 * L \<longrightarrow>
            evaluate_cylinder_with_caps L r h
              = Inr (pi * r\<^sup>2 * (L - 2 * r) + 4 / 3 * pi * r ^ 3, 0,
                     second_moment 0 (capped_cylinder_shape L r))
            \<and> 0 < pi * r\<^sup>2 * (L - 2 * r) + 4 / 3 * pi * r ^ 3)
       \<and> (h < - L / 2 - 9 * L \<longrightarrow>
            (\<exists>V g I. evaluate_cylinder_with_caps L r h = Inr (V, g, I) \<and> 0 < V))"
proof -
  have L: "0 < L" "2 * r \<le> L" using assms by simp_all
  note ret = evaluate_sphere_returns [OF assms(1)] evaluate_cylinder_returns [OF assms(2,3)]
  have "sphere_values R (- R) = (0, 0, 0)"
    using sphere_empty [of R "- R"] assms(1) by simp
  then have 1: "\<exists>g I. evaluate_sphere_parameters R (- R) = Inr (0, g, I)"
    by (simp add: ret)
  have "fst (sphere_values R R) = 4 / 3 * pi * R ^ 3"
    by (rule sphere_top_volume [OF assms(1)])
  with returned_triple [of "sphere_values R R"]
  have 2: "\<exists>g I. evaluate_sphere_parameters R R = Inr (4 / 3 * pi * R ^ 3, g, I)"
    by (simp add: ret)
  have empty: "capsule_values L r h = (0, 0, 0)" if "- L / 2 - 9 * L \<le> h \<and> h \<le> - L / 2" for h
    using capsule_empty [OF assms(2) L(2), of h] that by simp
  have full: "capsule_values L r h
      = (pi * r\<^sup>2 * (L - 2 * r) + 4 / 3 * pi * r ^ 3, 0,
         second_moment 0 (capped_cylinder_shape L r))"
    if "L / 2 \<le> h \<or> h \<le> - L / 2 - 10 * L" for h
    using capsule_full [OF assms(2) L(2), of h] that capsule_full_values [OF assms(2) L(2)]
    by simp
  have 3: "\<exists>g I. evaluate_cylinder_with_caps L r (- L / 2) = Inr (0, g, I)"
    using empty [of "- L / 2"] L(1) by (simp add: ret)
  have 4: "\<exists>g I. evaluate_cylinder_with_caps L r (L / 2)
                    = Inr (pi * r\<^sup>2 * (L - 2 * r) + 4 / 3 * pi * r ^ 3, g, I)"
    using full [of "L / 2"] by (simp add: ret)
  have pos: "0 < pi * r\<^sup>2 * (L - 2 * r) + 4 / 3 * pi * r ^ 3"
    using assms by (intro add_pos_pos mult_pos_pos) simp_all
  have band: "\<exists>V g I. capsule_values L r h = (V, g, I) \<and> 0 < V" if "h < - L / 2 - 9 * L"
    using capsule_volume_below_range [OF assms(2) L(2) that]
      returned_triple [of "capsule_values L r h"]
    by metis
  show ?thesis
    using 1 2 3 4 empty full pos band by (simp only: ret sum.inject) blast
qed

theorem C4_boundary_values_witness:
  "(0::real) < 1 \<and> (0::real) < 1 \<and> 2 * 1 < (4::real)
   \<and> (\<exists>g I. evaluate_sphere_parameters 1 (- 1) = Inr (0, g, I))
   \<and> (\<exists>g I. evaluate_sphere_parameters 1 1 = Inr (4 / 3 * pi * 1 ^ 3, g, I))
   \<and> (\<exists>g I. evaluate_cylinder_with_caps 4 1 (- 4 / 2) = Inr (0, g, I))
   \<and> (\<exists>g I. evaluate_cylinder_with_caps 4 1 (4 / 2)
                = Inr (pi * 1\<^sup>2 * (4 - 2 * 1) + 4 / 3 * pi * 1 ^ 3, g, I))
   \<and> (- 44::real) \<le> - 4 / 2 - 10 * 4
   \<and> evaluate_cylinder_with_caps 4 1 (- 44)
        = Inr (pi * 1\<^sup>2 * (4 - 2 * 1) + 4 / 3 * pi * 1 ^ 3, 0,
               second_moment 0 (capped_cylinder_shape 4 1))
   \<and> (0::real) < pi * 1\<^sup>2 * (4 - 2 * 1) + 4 / 3 * pi * 1 ^ 3
   \<and> second_moment 0 (capped_cylinder_shape 4 1) = 121 / 30 * pi
   \<and> (- 44::real) < - 4 / 2 - 9 * 4
   \<and> (\<exists>V g I. evaluate_cylinder_with_caps 4 1 (- 44) = Inr (V, g, I) \<and> 0 < V)
   \<and> - 4 / 2 - 9 * 4 \<le> (- 10::real) \<and> (- 10::real) \<le> - 4 / 2
   \<and> evaluate_cylinder_with_caps 4 1 (- 10) = Inr (0, 0, 0)"
proof -
  have valid: "(0::real) < 1" "2 * 1 < (4::real)"
    by simp_all
  have levels: "(- 44::real) \<le> - 4 / 2 - 10 * 4" "(- 44::real) < - 4 / 2 - 9 * 4"
    "- 4 / 2 - 9 * 4 \<le> (- 10::real)" "(- 10::real) \<le> - 4 / 2"
    by simp_all
  from C4_boundary_values [OF valid(1) valid(1) valid(2), of "- 44"]
    C4_boundary_values [OF valid(1) valid(1) valid(2), of "- 10"]
    valid levels capsule_4_1_inertia
  show ?thesis
    by blast
qed

text \<open>C5: for a sphere of radius \<open>R\<close> about the origin and every level \<open>h\<close> between
  \<open>- R\<close> and \<open>R\<close>, the evaluator returns at \<open>h\<close> and at \<open>- h\<close>, and the two
  volumes add up to the volume \<open>4/3 \<pi> R\<^sup>3\<close> of the full sphere.\<close>

theorem C5_sphere_symmetry:
  assumes "0 < R" "- R \<le> h" "h \<le> R"
  shows "\<exists>V g I V' g' I'.
            evaluate_sphere_parameters R h = Inr (V, g, I)
          \<and> evaluate_sphere_parameters R (- h) = Inr (V', g', I')
          \<and> V + V' = 4 / 3 * pi * R ^ 3"
proof -
  have "fst (sphere_values R h) + fst (sphere_values R (- h)) = 4 / 3 * pi * R ^ 3"
    using sphere_volume [of R h] sphere_volume [of R "- h"] assms
    by (simp add: power2_eq_square power3_eq_cube algebra_simps)
  with returned_triple [of "sphere_values R h"] returned_triple [of "sphere_values R (- h)"]
  show ?thesis
    by (simp add: evaluate_sphere_returns [OF assms(1)]) metis
qed

theorem C5_sphere_symmetry_witness:
  "(0::real) < 2 \<and> - 2 \<le> (1::real) \<and> (1::real) \<le> 2 \<and>
   (\<exists>V g I V' g' I'.
            evaluate_sphere_parameters 2 1 = Inr (V, g, I)
          \<and> evaluate_sphere_parameters 2 (- 1) = Inr (V', g', I')
          \<and> V + V' = 4 / 3 * pi * 2 ^ 3)"
  using C5_sphere_symmetry [of 2 1] by simp

text \<open>C6: for a valid shape the evaluators return at every real level, none makes them
  raise: what they return are the mass properties of the filled region together with
  whatever part of the tank lies above the upper end of the drill, at
  \<open>level_height + drill_height\<close>.  (A capped cylinder of total length \<open>2 r\<close>, whose
  straight part has no height, makes the evaluator raise at every level.)  From
  \<open>- 9 R\<close> (sphere) or \<open>- L/2 - 9 L\<close> (capped cylinder) upwards nothing lies above the
  drill, and the result is the result at the level clamped to the valid range: empty
  below the bottom, full above the top.  At every lower level the result is not the
  one at the clamped level: the clamped level gives the empty result and the
  evaluator a positive volume, from \<open>- 11 R\<close> (\<open>- L/2 - 10 L\<close>) downwards the result
  of the full shape, for the sphere \<open>(4/3 \<pi> R\<^sup>3, 0, 8/15 \<pi> R\<^sup>5)\<close>.\<close>

theorem C6_level_out_of_range:
  assumes "0 < R" "0 < r" "2 * r < L"
  shows "evaluate_sphere_parameters R h
           = Inr (region_properties (filled_region (sphere_shape R) h
                                     @ beyond_drill (sphere_shape R) (h + 10 * R)))
       \<and> evaluate_cylinder_with_caps L r k
           = Inr (region_properties (filled_region (capped_cylinder_shape L r) k
                                     @ beyond_drill (capped_cylinder_shape L r) (k + 10 * L)))
       \<and> evaluate_cylinder_with_caps (2 * r) r k = Inl KernelError
       \<and> (- 9 * R \<le> h \<longrightarrow>
            evaluate_sphere_parameters R h = evaluate_sphere_parameters R (max (- R) (min R h)))
       \<and> (- L / 2 - 9 * L \<le> k \<longrightarrow>
            evaluate_cylinder_with_caps L r k
              = evaluate_cylinder_with_caps L r (max (- L / 2) (min (L / 2) k)))
       \<and> (h < - 9 * R \<longrightarrow>
            evaluate_sphere_parameters R (max (- R) (min R h)) = Inr (0, 0, 0)
            \<and> (\<exists>V g I. evaluate_sphere_parameters R h = Inr (V, g, I) \<and> 0 < V))
       \<and> (k < - L / 2 - 9 * L \<longrightarrow>
            evaluate_cylinder_with_caps L r (max (- L / 2) (min (L / 2) k)) = Inr (0, 0, 0)
            \<and> (\<exists>V g I. evaluate_cylinder_with_caps L r k = Inr (V, g, I) \<and> 0 < V))
       \<and> (h \<le> - 11 * R \<longrightarrow>
            evaluate_sphere_parameters R h = evaluate_sphere_parameters R R
            \<and> evaluate_sphere_parameters R h
                = Inr (4 / 3 * pi * R ^ 3, 0, 8 / 15 * pi * R ^ 5))
       \<and> (k \<le> - L / 2 - 10 * L \<longrightarrow>
            evaluate_cylinder_with_caps L r k = evaluate_cylinder_with_caps L r (L / 2))"
proof (intro conjI impI)
  have R: "0 \<le> R" and L: "2 * r \<le> L" "0 < L" using assms by simp_all
  note ret = evaluate_sphere_returns [OF assms(1)] evaluate_cylinder_returns [OF assms(2,3)]
  note empty = capsule_empty [OF assms(2) L(1)] and full = capsule_full [OF assms(2) L(1)]
  show "evaluate_sphere_parameters R h
           = Inr (region_properties (filled_region (sphere_shape R) h
                                     @ beyond_drill (sphere_shape R) (h + 10 * R)))"
    by (simp only: ret sphere_values_regions [OF R] mass_properties_region)
  show "evaluate_cylinder_with_caps L r k
           = Inr (region_properties (filled_region (capped_cylinder_shape L r) k
                                     @ beyond_drill (capped_cylinder_shape L r) (k + 10 * L)))"
    by (simp only: ret capsule_values_regions [OF assms(2) L(1)] mass_properties_region)
  show "evaluate_cylinder_with_caps (2 * r) r k = Inl KernelError"
    by (rule evaluate_cylinder_raises) simp
  {
    assume h: "- 9 * R \<le> h"
    consider "h \<le> - R" | "- R < h" "h < R" | "R \<le> h" by linarith
    then have "sphere_values R h = sphere_values R (max (- R) (min R h))"
    proof cases
      case 1
      then have "max (- R) (min R h) = - R" using assms(1) by simp
      then show ?thesis
        using sphere_empty [of R h] sphere_empty [of R "- R"] 1 h assms(1) by simp
    next
      case 2
      then have "max (- R) (min R h) = h" by simp
      then show ?thesis by simp
    next
      case 3
      then have "max (- R) (min R h) = R" using assms(1) by simp
      then show ?thesis
        using sphere_full [of R h] sphere_full [of R R] 3 assms(1) by simp
    qed
    then show "evaluate_sphere_parameters R h
        = evaluate_sphere_parameters R (max (- R) (min R h))"
      by (simp only: ret)
  }
  {
    assume k: "- L / 2 - 9 * L \<le> k"
    consider "k \<le> - L / 2" | "- L / 2 < k" "k < L / 2" | "L / 2 \<le> k" by linarith
    then have "capsule_values L r k = capsule_values L r (max (- L / 2) (min (L / 2) k))"
    proof cases
      case 1
      then have "max (- L / 2) (min (L / 2) k) = - L / 2" using L by simp
      then show ?thesis
        using empty [of k] empty [of "- L / 2"] 1 k L by simp
    next
      case 2
      then have "max (- L / 2) (min (L / 2) k) = k" by simp
      then show ?thesis by simp
    next
      case 3
      then have "max (- L / 2) (min (L / 2) k) = L / 2" using L by simp
      then show ?thesis
        using full [of k] full [of "L / 2"] 3 by simp
    qed
    then show "evaluate_cylinder_with_caps L r k
        = evaluate_cylinder_with_caps L r (max (- L / 2) (min (L / 2) k))"
      by (simp only: ret)
  }
  {
    assume h: "h < - 9 * R"
    then have "max (- R) (min R h) = - R" using assms(1) by simp
    then show "evaluate_sphere_parameters R (max (- R) (min R h)) = Inr (0, 0, 0)"
      using sphere_empty [of R "- R"] assms(1) by (simp add: ret)
    from sphere_volume_below_range [OF assms(1) h] returned_triple [of "sphere_values R h"]
    show "\<exists>V g I. evaluate_sphere_parameters R h = Inr (V, g, I) \<and> 0 < V"
      unfolding ret by (metis sum.inject(2))
  }
  {
    assume k: "k < - L / 2 - 9 * L"
    then have "max (- L / 2) (min (L / 2) k) = - L / 2" using L by simp
    then show "evaluate_cylinder_with_caps L r (max (- L / 2) (min (L / 2) k)) = Inr (0, 0, 0)"
      using empty [of "- L / 2"] L by (simp add: ret)
    from capsule_volume_below_range [OF assms(2) L(1) k] returned_triple [of "capsule_values L r k"]
    show "\<exists>V g I. evaluate_cylinder_with_caps L r k = Inr (V, g, I) \<and> 0 < V"
      unfolding ret by (metis sum.inject(2))
  }
  {
    assume h: "h \<le> - 11 * R"
    then have "sphere_values R h = sphere_values R R"
      using sphere_full [of R h] sphere_full [of R R] assms(1) by simp
    then show "evaluate_sphere_parameters R h = evaluate_sphere_parameters R R"
      by (simp only: ret)
    have "sphere_values R h = (4 / 3 * pi * R ^ 3, 0, 8 / 15 * pi * R ^ 5)"
      using h sphere_full [of R h] sphere_full_values [OF assms(1)] R by simp
    then show "evaluate_sphere_parameters R h
        = Inr (4 / 3 * pi * R ^ 3, 0, 8 / 15 * pi * R ^ 5)"
      by (simp only: ret)
  }
  {
    assume "k \<le> - L / 2 - 10 * L"
    then have "capsule_values L r k = capsule_values L r (L / 2)"
      using full [of k] full [of "L / 2"] by simp
    then show "evaluate_cylinder_with_caps L r k = evaluate_cylinder_with_caps L r (L / 2)"
      by (simp only: ret)
  }
qed

theorem C6_level_out_of_range_witness:
  "(0::real) < 1 \<and> (0::real) < 1 \<and> 2 * 1 < (4::real)
   \<and> evaluate_sphere_parameters 1 (- 12)
        = Inr (region_properties (filled_region (sphere_shape 1) (- 12)
                                  @ beyond_drill (sphere_shape 1) (- 12 + 10 * 1)))
   \<and> evaluate_cylinder_with_caps 4 1 7
        = Inr (region_properties (filled_region (capped_cylinder_shape 4 1) 7
                                  @ beyond_drill (capped_cylinder_shape 4 1) (7 + 10 * 4)))
   \<and> evaluate_cylinder_with_caps (2 * 1) 1 7 = Inl KernelError
   \<and> - 4 / 2 - 9 * 4 \<le> (7::real)
   \<and> evaluate_cylinder_with_caps 4 1 7
        = evaluate_cylinder_with_caps 4 1 (max (- 4 / 2) (min (4 / 2) 7))
   \<and> (- 12::real) < - 9 * 1
   \<and> evaluate_sphere_parameters 1 (max (- 1) (min 1 (- 12))) = Inr (0, 0, 0)
   \<and> (\<exists>V g I. evaluate_sphere_parameters 1 (- 12) = Inr (V, g, I) \<and> 0 < V)
   \<and> (- 12::real) \<le> - 11 * 1
   \<and> evaluate_sphere_parameters 1 (- 12) = evaluate_sphere_parameters 1 1
   \<and> evaluate_sphere_parameters 1 (- 12) = Inr (4 / 3 * pi * 1 ^ 3, 0, 8 / 15 * pi * 1 ^ 5)"
proof -
  have valid: "(0::real) < 1" "2 * 1 < (4::real)"
    by simp_all
  have levels: "- 4 / 2 - 9 * 4 \<le> (7::real)" "(- 12::real) < - 9 * 1" "(- 12::real) \<le> - 11 * 1"
    by simp_all
  from C6_level_out_of_range [OF valid(1) valid(1) valid(2), of "- 12" 7] valid levels
  show ?thesis
    by blast
qed

text \<open>C7, as amended: for a sphere of radius \<open>R\<close> about the origin the returned centre
  of mass is 0 at \<open>h = R\<close> and \<open>- 3 R / 8\<close> at \<open>h = 0\<close>, where the volume is
  \<open>2/3 \<pi> R\<^sup>3\<close> (for \<open>R = 0.05\<close> the centre of mass is \<open>- 0.01875\<close>).  At \<open>h = - R\<close>
  the filled region is empty and the evaluator returns the volume 0 and the centre of
  mass 0, not \<open>- R\<close>.\<close>

theorem C7_sphere_centroid:
  assumes "0 < R"
  shows "(\<exists>V I. evaluate_sphere_parameters R R = Inr (V, 0, I))
       \<and> (\<exists>I. evaluate_sphere_parameters R 0 = Inr (2 / 3 * pi * R ^ 3, - 3 * R / 8, I))
       \<and> evaluate_sphere_parameters R (- R) = Inr (0, 0, 0)"
proof -
  have "fst (snd (sphere_values R R)) = 0"
    using sphere_centroid [of R R] assms by simp
  then have "\<exists>V I. sphere_values R R = (V, 0, I)"
    by (metis prod.collapse)
  moreover have "fst (snd (sphere_values R 0)) = - 3 * R / 8"
    using sphere_centroid [of R 0] assms by (simp add: power2_eq_square)
  moreover have "fst (sphere_values R 0) = 2 / 3 * pi * R ^ 3"
    using sphere_volume [of R 0] assms by (simp add: power2_eq_square power3_eq_cube)
  ultimately have "\<exists>V I. sphere_values R R = (V, 0, I)"
    "\<exists>I. sphere_values R 0 = (2 / 3 * pi * R ^ 3, - 3 * R / 8, I)"
    by (metis prod.collapse)+
  moreover have "sphere_values R (- R) = (0, 0, 0)"
    using sphere_empty [of R "- R"] assms by simp
  ultimately show ?thesis
    by (simp add: evaluate_sphere_returns [OF assms])
qed

theorem C7_sphere_centroid_witness:
  "(0::real) < 5 / 100
   \<and> (\<exists>V I. evaluate_sphere_parameters (5 / 100) (5 / 100) = Inr (V, 0, I))
   \<and> (\<exists>I. evaluate_sphere_parameters (5 / 100) 0
             = Inr (2 / 3 * pi * (5 / 100) ^ 3, - 1875 / 100000, I))
   \<and> evaluate_sphere_parameters (5 / 100) (- (5 / 100)) = Inr (0, 0, 0)"
  using C7_sphere_centroid [of "5 / 100"] by simp

theorem C7_counterexample:
  "\<not> (\<exists>V I. evaluate_sphere_parameters 1 (- 1) = Inr (V, - 1, I))"
proof -
  have "evaluate_sphere_parameters 1 (- 1) = Inr (0, 0, 0)"
    using sphere_empty [of 1 "- 1"] by (simp add: evaluate_sphere_returns)
  then show ?thesis by simp
qed

text \<open>C8: constructing a tank with a radius or a length that is not positive, or with
  caps that together exceed the total length, yields a ConfigurationError at
  construction, and the run of that entry ends with this error before any level is
  evaluated; a tank with valid dimensions is constructed with exactly the radius and
  the total height it was given.\<close>

theorem C8_configuration_error:
  "(radius \<le> 0 \<longrightarrow>
      SphericalTank radius = Inl ConfigurationError
      \<and> run_sphere_entry name radius = Inl ConfigurationError)
   \<and> (radius \<le> 0 \<or> height \<le> 0 \<or> height < 2 * radius \<longrightarrow>
      CylindricalTank radius height True = Inl ConfigurationError
      \<and> run_cylinder_entry name radius height = Inl ConfigurationError)
   \<and> (0 < radius \<longrightarrow>
      (\<exists>g. SphericalTank radius = Inr g \<and> total_height g = 2 * radius))
   \<and> (0 < radius \<and> 0 < height \<and> 2 * radius \<le> height \<longrightarrow>
      (\<exists>g. CylindricalTank radius height True = Inr g
           \<and> total_height g = height \<and> radius_fn g 0 = radius))"
  by (simp add: SphericalTank_def CylindricalTank_def run_sphere_entry_def
      run_cylinder_entry_def)

theorem C8_configuration_error_witness:
  "((- 1::real) \<le> 0
      \<and> SphericalTank (- 1) = Inl ConfigurationError
      \<and> run_sphere_entry ''tank'' (- 1) = Inl ConfigurationError)
   \<and> ((1::real) < 2 * 1
      \<and> CylindricalTank 1 1 True = Inl ConfigurationError
      \<and> run_cylinder_entry ''tank'' 1 1 = Inl ConfigurationError)
   \<and> ((0::real) < 1 \<and> (\<exists>g. SphericalTank 1 = Inr g \<and> total_height g = 2 * 1))
   \<and> ((0::real) < 1 \<and> (0::real) < 4 \<and> 2 * 1 \<le> (4::real)
      \<and> (\<exists>g. CylindricalTank 1 4 True = Inr g \<and> total_height g = 4 \<and> radius_fn g 0 = 1))"
proof -
  have "SphericalTank (- 1) = Inl ConfigurationError
      \<and> run_sphere_entry ''tank'' (- 1) = Inl ConfigurationError"
    using C8_configuration_error [of "- 1" "''tank''" 1] by simp
  moreover have "CylindricalTank 1 1 True = Inl ConfigurationError
      \<and> run_cylinder_entry ''tank'' 1 1 = Inl ConfigurationError"
    using C8_configuration_error [of 1 "''tank''" 1] by simp
  moreover have "\<exists>g. SphericalTank 1 = Inr g \<and> total_height g = 2 * 1"
    using C8_configuration_error [of 1 "''tank''" 4] by simp
  moreover have "\<exists>g. CylindricalTank 1 4 True = Inr g \<and> total_height g = 4 \<and> radius_fn g 0 = 1"
    using C8_configuration_error [of 1 "''tank''" 4] by simp
  ultimately show ?thesis
    by simp
qed

text \<open>C9: when every entry is a valid shape, the harness writes for every entry, in
  order, one file whose first row is the header
  \<open>level_height, volume, center_of_mass, inertia\<close> and whose other rows are, in
  order, one record per sampled level holding the level and the three values the
  evaluator returns for it, and no exception ends the loop.  The levels are the 25
  equally spaced points \<open>bottom + i (top - bottom) / 24\<close> for \<open>i = 0, \<dots>, 24\<close>, from
  the bottom-most point (\<open>- R\<close>, \<open>- L/2\<close>) to the top-most point (\<open>R\<close>, \<open>L/2\<close>),
  both included, and the evaluator returns at each of them.  An entry that is not a
  valid shape ends the loop with the exception of the kernel before its file is
  written.\<close>

theorem C9_tabulation:
  "((\<forall>(name, g)\<in>set items. 0 < total_height g) \<longrightarrow>
      export_spheres items []
        = (map (\<lambda>(name, g).
             \<lparr>file_name = name @ ''_expected.csv'',
              rows = map Text [''level_height'', ''volume'', ''center_of_mass'', ''inertia'']
                # map (\<lambda>i. let R = total_height g / 2; h = - R + real i * ((R - (- R)) / 24)
                            in case projr (evaluate_sphere_parameters R h) of
                                 (v, c, j) \<Rightarrow> map Number [h, v, c, j]) [0..<25]\<rparr>) items,
           None))
   \<and> ((\<forall>(name, g)\<in>set items. 0 < radius_fn g 0 \<and> 2 * radius_fn g 0 < total_height g) \<longrightarrow>
      export_cylinders items []
        = (map (\<lambda>(name, g).
             \<lparr>file_name = name @ ''_expected.csv'',
              rows = map Text [''level_height'', ''volume'', ''center_of_mass'', ''inertia'']
                # map (\<lambda>i. let L = total_height g;
                                h = - L / 2 + real i * ((L / 2 - (- L / 2)) / 24)
                            in case projr (evaluate_cylinder_with_caps L (radius_fn g 0) h) of
                                 (v, c, j) \<Rightarrow> map Number [h, v, c, j]) [0..<25]\<rparr>) items,
           None))
   \<and> (0 < R \<longrightarrow> (\<exists>t. evaluate_sphere_parameters R h = Inr t))
   \<and> (0 < r \<and> 2 * r < L \<longrightarrow> (\<exists>t. evaluate_cylinder_with_caps L r h = Inr t))
   \<and> (total_height g \<le> 0 \<longrightarrow>
        export_spheres ((name, g) # items) files = (files, Some KernelError))
   \<and> (radius_fn g 0 \<le> 0 \<or> total_height g \<le> 2 * radius_fn g 0 \<longrightarrow>
        export_cylinders ((name, g) # items) files = (files, Some KernelError))
   \<and> length (linspace a b 25) = 25 \<and> hd (linspace a b 25) = a \<and> last (linspace a b 25) = b"
proof (intro conjI impI)
  assume v: "\<forall>(name, g)\<in>set items. 0 < total_height g"
  have "map (\<lambda>(name, g). export_expected_parameters name (projr (sphere_datapoints g))) items
      = map (\<lambda>(name, g).
             \<lparr>file_name = name @ ''_expected.csv'',
              rows = map Text [''level_height'', ''volume'', ''center_of_mass'', ''inertia'']
                # map (\<lambda>i. let R = total_height g / 2; h = - R + real i * ((R - (- R)) / 24)
                            in case projr (evaluate_sphere_parameters R h) of
                                 (v, c, j) \<Rightarrow> map Number [h, v, c, j]) [0..<25]\<rparr>) items"
    using v by (intro map_cong refl) (auto simp: sphere_file)
  then show "export_spheres items []
        = (map (\<lambda>(name, g).
             \<lparr>file_name = name @ ''_expected.csv'',
              rows = map Text [''level_height'', ''volume'', ''center_of_mass'', ''inertia'']
                # map (\<lambda>i. let R = total_height g / 2; h = - R + real i * ((R - (- R)) / 24)
                            in case projr (evaluate_sphere_parameters R h) of
                                 (v, c, j) \<Rightarrow> map Number [h, v, c, j]) [0..<25]\<rparr>) items,
           None)"
    by (simp only: export_spheres_returns [OF v] append_Nil)
next
  assume v: "\<forall>(name, g)\<in>set items. 0 < radius_fn g 0 \<and> 2 * radius_fn g 0 < total_height g"
  have "map (\<lambda>(name, g). export_expected_parameters name (projr (cylinder_datapoints g))) items
      = map (\<lambda>(name, g).
             \<lparr>file_name = name @ ''_expected.csv'',
              rows = map Text [''level_height'', ''volume'', ''center_of_mass'', ''inertia'']
                # map (\<lambda>i. let L = total_height g;
                                h = - L / 2 + real i * ((L / 2 - (- L / 2)) / 24)
                            in case projr (evaluate_cylinder_with_caps L (radius_fn g 0) h) of
                                 (v, c, j) \<Rightarrow> map Number [h, v, c, j]) [0..<25]\<rparr>) items"
    using v by (intro map_cong refl) (auto simp: cylinder_file)
  then show "export_cylinders items []
        = (map (\<lambda>(name, g).
             \<lparr>file_name = name @ ''_expected.csv'',
              rows = map Text [''level_height'', ''volume'', ''center_of_mass'', ''inertia'']
                # map (\<lambda>i. let L = total_height g;
                                h = - L / 2 + real i * ((L / 2 - (- L / 2)) / 24)
                            in case projr (evaluate_cylinder_with_caps L (radius_fn g 0) h) of
                                 (v, c, j) \<Rightarrow> map Number [h, v, c, j]) [0..<25]\<rparr>) items,
           None)"
    by (simp only: export_cylinders_returns [OF v] append_Nil)
next
  assume "0 < R"
  then show "\<exists>t. evaluate_sphere_parameters R h = Inr t"
    using evaluate_sphere_returns by blast
next
  assume "0 < r \<and> 2 * r < L"
  then show "\<exists>t. evaluate_cylinder_with_caps L r h = Inr t"
    using evaluate_cylinder_returns by blast
next
  assume "total_height g \<le> 0"
  then show "export_spheres ((name, g) # items) files = (files, Some KernelError)"
    by (simp add: sphere_datapoints_raises)
next
  assume "radius_fn g 0 \<le> 0 \<or> total_height g \<le> 2 * radius_fn g 0"
  then show "export_cylinders ((name, g) # items) files = (files, Some KernelError)"
    by (simp add: cylinder_datapoints_raises)
next
  show "length (linspace a b 25) = 25"
    by (simp add: linspace_25)
  have "linspace a b 25 = a # tl (linspace a b 25)"
    by (simp add: linspace_25 upt_rec)
  then show "hd (linspace a b 25) = a"
    by (metis list.sel(1))
  have "linspace a b 25 = butlast (map (\<lambda>v. v + a) (map (\<lambda>v. v * ((b - a) / real (25 - 1)))
      (map real [0..<25]))) @ [b]"
    by (simp add: linspace_def Let_def)
  then show "last (linspace a b 25) = b"
    by (metis last_snoc)
qed

theorem C9_tabulation_witness:
  "(\<exists>files.
      export_spheres
        [(''spherical_oxidizer_tank'', \<lparr>total_height = 1 / 10, radius_fn = (\<lambda>position. 5 / 100)\<rparr>)] []
        = (files, None)
      \<and> length files = 1 \<and> file_name (hd files) = ''spherical_oxidizer_tank_expected.csv''
      \<and> length (rows (hd files)) = 26
      \<and> rows (hd files) ! 0
          = map Text [''level_height'', ''volume'', ''center_of_mass'', ''inertia'']
      \<and> hd (rows (hd files) ! 1) = Number (- (5 / 100))
      \<and> hd (rows (hd files) ! 25) = Number (5 / 100))
   \<and> (\<exists>files.
      export_cylinders
        [(''cylindrical_oxidizer_tank'',
          \<lparr>total_height = 8068 / 10000, radius_fn = (\<lambda>position. 744 / 10000)\<rparr>)] []
        = (files, None)
      \<and> length files = 1 \<and> file_name (hd files) = ''cylindrical_oxidizer_tank_expected.csv''
      \<and> length (rows (hd files)) = 26
      \<and> hd (rows (hd files) ! 1) = Number (- (4034 / 10000))
      \<and> hd (rows (hd files) ! 25) = Number (4034 / 10000))
   \<and> (\<exists>t. evaluate_sphere_parameters (5 / 100) 0 = Inr t)
   \<and> (\<exists>t. evaluate_cylinder_with_caps (8068 / 10000) (744 / 10000) 0 = Inr t)
   \<and> export_spheres [(''tank'', \<lparr>total_height = 0, radius_fn = (\<lambda>position. 0)\<rparr>)] []
        = ([], Some KernelError)
   \<and> export_cylinders [(''tank'', \<lparr>total_height = 2, radius_fn = (\<lambda>position. 1)\<rparr>)] []
        = ([], Some KernelError)"
proof -
  let ?s = "[(''spherical_oxidizer_tank'',
              \<lparr>total_height = 1 / 10, radius_fn = (\<lambda>position. 5 / 100 :: real)\<rparr>)]"
  let ?c = "[(''cylindrical_oxidizer_tank'',
              \<lparr>total_height = 8068 / 10000, radius_fn = (\<lambda>position. 744 / 10000 :: real)\<rparr>)]"
  have "\<forall>(name, g)\<in>set ?s. 0 < total_height g"
    by simp
  with C9_tabulation [of ?s] have 1: "\<exists>files. export_spheres ?s [] = (files, None)
      \<and> length files = 1 \<and> file_name (hd files) = ''spherical_oxidizer_tank_expected.csv''
      \<and> length (rows (hd files)) = 26
      \<and> rows (hd files) ! 0
          = map Text [''level_height'', ''volume'', ''center_of_mass'', ''inertia'']
      \<and> hd (rows (hd files) ! 1) = Number (- (5 / 100))
      \<and> hd (rows (hd files) ! 25) = Number (5 / 100)"
    by (simp add: Let_def split: prod.splits)
  have "\<forall>(name, g)\<in>set ?c. 0 < radius_fn g 0 \<and> 2 * radius_fn g 0 < total_height g"
    by simp
  with C9_tabulation [of ?c] have 2: "\<exists>files. export_cylinders ?c [] = (files, None)
      \<and> length files = 1 \<and> file_name (hd files) = ''cylindrical_oxidizer_tank_expected.csv''
      \<and> length (rows (hd files)) = 26
      \<and> hd (rows (hd files) ! 1) = Number (- (4034 / 10000))
      \<and> hd (rows (hd files) ! 25) = Number (4034 / 10000)"
    by (simp add: Let_def split: prod.splits)
  have 3: "\<exists>t. evaluate_sphere_parameters (5 / 100) 0 = Inr t"
    using C9_tabulation [of "[]" "5 / 100" 0] by simp
  have 4: "\<exists>t. evaluate_cylinder_with_caps (8068 / 10000) (744 / 10000) 0 = Inr t"
    using C9_tabulation [of "[]" 1 0 "744 / 10000" "8068 / 10000"] by simp
  have 5: "export_spheres [(''tank'', \<lparr>total_height = 0, radius_fn = (\<lambda>position. 0)\<rparr>)] []
        = ([], Some KernelError)"
    using C9_tabulation [of "[]" 1 0 1 4 "\<lparr>total_height = 0, radius_fn = (\<lambda>position. 0)\<rparr>" "''tank''" "[]"]
    by simp
  have 6: "export_cylinders [(''tank'', \<lparr>total_height = 2, radius_fn = (\<lambda>position. 1)\<rparr>)] []
        = ([], Some KernelError)"
    using C9_tabulation [of "[]" 1 0 1 4 "\<lparr>total_height = 2, radius_fn = (\<lambda>position. 1)\<rparr>" "''tank''" "[]"]
    by simp
  from 1 2 3 4 5 6 show ?thesis
    by blast
qed

text \<open>C10: for every valid shape and every level, in particular every level of the
  valid range, the evaluator returns and the inertia it returns is not negative.\<close>

theorem C10_inertia_nonneg:
  assumes "0 < R" "0 < r" "2 * r < L"
  shows "(\<exists>V g I. evaluate_sphere_parameters R h = Inr (V, g, I) \<and> 0 \<le> I)
       \<and> (\<exists>V g I. evaluate_cylinder_with_caps L r k = Inr (V, g, I) \<and> 0 \<le> I)"
proof -
  have "0 \<le> snd (snd (sphere_values R h))"
    using mass_properties_inertia_nonneg [OF wf_filled_sphere, of R] assms(1)
    by (simp only: sphere_values_eq less_imp_le simp_thms)
  moreover have "0 \<le> snd (snd (capsule_values L r k))"
    using mass_properties_inertia_nonneg [OF wf_filled_capsule [of r L]] assms(2,3)
    by (simp only: capsule_values_eq less_imp_le simp_thms)
  ultimately show ?thesis
    unfolding evaluate_sphere_returns [OF assms(1)] evaluate_cylinder_returns [OF assms(2,3)]
    by (metis prod.collapse)
qed

theorem C10_inertia_nonneg_witness:
  "(0::real) < 1 \<and> (0::real) < 1 \<and> 2 * 1 < (4::real)
   \<and> (\<exists>V g I. evaluate_sphere_parameters 1 0 = Inr (V, g, I) \<and> 0 \<le> I)
   \<and> (\<exists>V g I. evaluate_cylinder_with_caps 4 1 1 = Inr (V, g, I) \<and> 0 \<le> I)"
  using C10_inertia_nonneg [of 1 1 4 0 1] by simp

end
